theory Spec2Isabelle
  imports Main
begin

section \<open>The command-line sync driver (src/cmd/cmd.cpp)\<close>

text \<open>
  A shallow embedding of \<^verbatim>\<open>cmd.cpp\<close>: option parsing, target URL rewriting, credential
  resolution, proxy setup, exclude lists, the selective-sync list and its reconciliation
  with the journal, and the goto-based restart loop of \<^verbatim>\<open>main\<close>.
  A \<^verbatim>\<open>QString\<close> is a \<^typ>\<open>string\<close> (its characters restricted to the 8-bit range), a
  \<^verbatim>\<open>QStringList\<close> a \<^typ>\<open>string list\<close>, a \<^verbatim>\<open>QSet<QString>\<close> a \<^typ>\<open>string set\<close>.
  Calls into the collaborators (csync, Qt's proxy settings, the journal object, the
  engine) are recorded as events, in the order \<^verbatim>\<open>main\<close> makes them. Line numbers are
  those of \<^verbatim>\<open>cmd.cpp\<close>.
\<close>

subsection \<open>The operations of \<^verbatim>\<open>QString\<close> and \<^verbatim>\<open>QStringList\<close> the driver uses\<close>

definition startsWith :: "string \<Rightarrow> string \<Rightarrow> bool" where
  "startsWith s p = (take (length p) s = p)"

definition endsWith :: "string \<Rightarrow> string \<Rightarrow> bool" where
  "endsWith s p = (length p \<le> length s \<and> drop (length s - length p) s = p)"

text \<open>\<^verbatim>\<open>QString::contains(const QString &)\<close>: the argument occurs somewhere in the string.\<close>

fun contains :: "string \<Rightarrow> string \<Rightarrow> bool" where
  "contains [] p = (p = [])"
| "contains (c # cs) p = (startsWith (c # cs) p \<or> contains cs p)"

text \<open>
  \<^verbatim>\<open>QString::split(QChar)\<close> with the default \<^verbatim>\<open>KeepEmptyParts\<close>: the empty string
  splits into one empty segment, and n separators give n + 1 segments.
\<close>

fun split_sep :: "char \<Rightarrow> string \<Rightarrow> string list" where
  "split_sep sep [] = [[]]"
| "split_sep sep (c # cs) =
     (if c = sep then [] # split_sep sep cs
      else (case split_sep sep cs of
              [] \<Rightarrow> [[c]]
            | w # ws \<Rightarrow> (c # w) # ws))"

text \<open>
  \<^verbatim>\<open>QString::split(const QString &)\<close>, again with \<^verbatim>\<open>KeepEmptyParts\<close>: the occurrences of
  the separator are found from left to right, without overlap. An empty separator splits
  between all characters and gives an empty first and last segment.
\<close>

function split_str :: "string \<Rightarrow> string \<Rightarrow> string list" where
  "split_str sep s =
     (if sep = [] then [] # map (\<lambda>c. [c]) s @ [[]]
      else if s = [] then [[]]
      else if startsWith s sep then [] # split_str sep (drop (length sep) s)
      else (case split_str sep (tl s) of
              [] \<Rightarrow> [[hd s]]
            | w # ws \<Rightarrow> (hd s # w) # ws))"
  by pat_completeness auto
termination
  by (relation "measure (\<lambda>(sep, s). length s)") auto

declare split_str.simps [simp del]

text \<open>\<^verbatim>\<open>QStringList::value(i)\<close>: the element at \<open>i\<close>, the empty string out of range.\<close>

definition value_at :: "string list \<Rightarrow> nat \<Rightarrow> string" where
  "value_at xs i = (if i < length xs then xs ! i else [])"

text \<open>
  \<^verbatim>\<open>QString::replace(before, after)\<close>: every occurrence of \<open>before\<close>, from left to right
  and without overlap, becomes \<open>after\<close>. An empty \<open>before\<close> matches before every character
  and at the end.
\<close>

function replace_all :: "string \<Rightarrow> string \<Rightarrow> string \<Rightarrow> string" where
  "replace_all before after s =
     (if before = [] then concat (map (\<lambda>c. after @ [c]) s) @ after
      else if s = [] then []
      else if startsWith s before then after @ replace_all before after (drop (length before) s)
      else hd s # replace_all before after (tl s))"
  by pat_completeness auto
termination
  by (relation "measure (\<lambda>(before, after, s). length s)") auto

declare replace_all.simps [simp del]

text \<open>
  \<^verbatim>\<open>QChar::isSpace\<close> on the 8-bit range, which is also the class \<^verbatim>\<open>\s\<close> of
  \<^verbatim>\<open>QRegExp\<close>: tab, line feed, vertical tab, form feed, carriage return, space,
  next-line (0x85) and no-break space (0xA0).
\<close>

definition isSpace :: "char \<Rightarrow> bool" where
  "isSpace c = (c = CHR 0x09 \<or> c = CHR 0x0A \<or> c = CHR 0x0B \<or> c = CHR 0x0C \<or> c = CHR 0x0D
                \<or> c = CHR '' '' \<or> c = CHR 0x85 \<or> c = CHR 0xA0)"

definition trimmed :: "string \<Rightarrow> string" where
  "trimmed s = rev (dropWhile isSpace (rev (dropWhile isSpace s)))"

definition isDigit :: "char \<Rightarrow> bool" where
  "isDigit c = (c \<in> set ''0123456789'')"

definition digit_value :: "char \<Rightarrow> nat" where
  "digit_value c = of_char c - of_char (CHR ''0'')"

definition digits_value :: "string \<Rightarrow> nat" where
  "digits_value ds = foldl (\<lambda>acc c. 10 * acc + digit_value c) 0 ds"

text \<open>
  \<^verbatim>\<open>QString::toInt()\<close> in base 10: surrounding whitespace is skipped, one sign is
  allowed, the rest must be a non-empty run of digits, and the value must fit a 32-bit
  \<^verbatim>\<open>int\<close>. Every failure returns 0 (the driver never reads the \<^verbatim>\<open>ok\<close> flag).
\<close>

definition toInt :: "string \<Rightarrow> int" where
  "toInt s =
     (let t = trimmed s;
          neg = (t \<noteq> [] \<and> hd t = CHR ''-'');
          ds = (if t \<noteq> [] \<and> (hd t = CHR ''-'' \<or> hd t = CHR ''+'') then tl t else t)
      in if ds = [] \<or> \<not> list_all isDigit ds then 0
         else (let v = (if neg then - int (digits_value ds) else int (digits_value ds))
               in if - (2 ^ 31) \<le> v \<and> v \<le> 2 ^ 31 - 1 then v else 0))"

subsection \<open>\<^verbatim>\<open>CmdOptions\<close> and \<^verbatim>\<open>parseOptions\<close>\<close>

text \<open>
  Lines 47-64. \<open>proxy\<close> is the one field the driver tests with \<^verbatim>\<open>isNull()\<close> (line 401)
  rather than \<^verbatim>\<open>isEmpty()\<close>: \<open>None\<close> is the null string of the default constructor,
  \<open>Some s\<close> a string assigned from an argument (possibly empty).
\<close>

record CmdOptions =
  source_dir :: string
  target_url :: string
  config_directory :: string
  user :: string
  password :: string
  proxy :: "string option"
  silent :: bool
  trustSSL :: bool
  useNetrc :: bool
  interactive :: bool
  ignoreHiddenFiles :: bool
  nonShib :: bool
  exclude :: string
  unsyncedfolders :: string
  davPath :: string
  restartTimes :: int

text \<open>Lines 277-284: the options as \<^verbatim>\<open>main\<close> sets them before parsing.\<close>

definition initial_options :: CmdOptions where
  "initial_options =
     \<lparr>source_dir = [], target_url = [], config_directory = [], user = [], password = [],
      proxy = None, silent = False, trustSSL = False, useNetrc = False, interactive = True,
      ignoreHiddenFiles = True, nonShib = False, exclude = [], unsyncedfolders = [],
      davPath = [], restartTimes = 3\<rparr>"

text \<open>
  How the process ends. \<^verbatim>\<open>help()\<close> and \<^verbatim>\<open>showVersion()\<close> call \<^verbatim>\<open>exit(0)\<close>, a missing
  source directory \<^verbatim>\<open>exit(1)\<close>; \<^verbatim>\<open>qFatal\<close> aborts; \<^verbatim>\<open>peekNext()\<close> on an iterator at the
  end of the list is undefined.
\<close>

datatype ending =
    Help
  | ShowVersion
  | SourceDirMissing
  | PeekNextAtEnd
  | FatalAccount
  | FatalExcludeList
  | Returned int

text \<open>
  Lines 208-240, the loop over the arguments left after the file name, branch by branch.
  A branch whose option takes a value evaluates \<^verbatim>\<open>it.peekNext()\<close> only when the option
  string matches. When it matches and the next argument starts with "-", the condition
  is false and the chain goes on; the option string equals that of no later branch, so
  the chain ends in the last \<^verbatim>\<open>else\<close>, which calls \<^verbatim>\<open>help()\<close>.
\<close>

fun parse_args :: "string list \<Rightarrow> CmdOptions \<Rightarrow> ending + CmdOptions" where
  "parse_args [] options = Inr options"
| "parse_args (option # rest) options =
     (if option = ''--httpproxy'' then
        (case rest of
           [] \<Rightarrow> Inl PeekNextAtEnd
         | v # rest' \<Rightarrow>
             if \<not> startsWith v ''-'' then parse_args rest' (options\<lparr>proxy := Some v\<rparr>)
             else Inl Help)
      else if option = ''-s'' \<or> option = ''--silent'' then
        parse_args rest (options\<lparr>silent := True\<rparr>)
      else if option = ''--trust'' then parse_args rest (options\<lparr>trustSSL := True\<rparr>)
      else if option = ''-n'' then parse_args rest (options\<lparr>useNetrc := True\<rparr>)
      else if option = ''-h'' then parse_args rest (options\<lparr>ignoreHiddenFiles := False\<rparr>)
      else if option = ''--non-interactive'' then
        parse_args rest (options\<lparr>interactive := False\<rparr>)
      else if option = ''-u'' \<or> option = ''--user'' then
        (case rest of
           [] \<Rightarrow> Inl PeekNextAtEnd
         | v # rest' \<Rightarrow>
             if \<not> startsWith v ''-'' then parse_args rest' (options\<lparr>user := v\<rparr>)
             else Inl Help)
      else if option = ''-p'' \<or> option = ''--password'' then
        (case rest of
           [] \<Rightarrow> Inl PeekNextAtEnd
         | v # rest' \<Rightarrow>
             if \<not> startsWith v ''-'' then parse_args rest' (options\<lparr>password := v\<rparr>)
             else Inl Help)
      else if option = ''--exclude'' then
        (case rest of
           [] \<Rightarrow> Inl PeekNextAtEnd
         | v # rest' \<Rightarrow>
             if \<not> startsWith v ''-'' then parse_args rest' (options\<lparr>exclude := v\<rparr>)
             else Inl Help)
      else if option = ''--unsyncedfolders'' then
        (case rest of
           [] \<Rightarrow> Inl PeekNextAtEnd
         | v # rest' \<Rightarrow>
             if \<not> startsWith v ''-'' then parse_args rest' (options\<lparr>unsyncedfolders := v\<rparr>)
             else Inl Help)
      else if option = ''--nonshib'' then parse_args rest (options\<lparr>nonShib := True\<rparr>)
      else if option = ''--davpath'' then
        (case rest of
           [] \<Rightarrow> Inl PeekNextAtEnd
         | v # rest' \<Rightarrow>
             if \<not> startsWith v ''-'' then parse_args rest' (options\<lparr>davPath := v\<rparr>)
             else Inl Help)
      else if option = ''--max-sync-retries'' then
        (case rest of
           [] \<Rightarrow> Inl PeekNextAtEnd
         | v # rest' \<Rightarrow>
             if \<not> startsWith v ''-'' then parse_args rest' (options\<lparr>restartTimes := toInt v\<rparr>)
             else Inl Help)
      else Inl Help)"

text \<open>
  Lines 177-245. \<open>file_exists\<close> is \<^verbatim>\<open>QFile::exists\<close>. The last argument is the target URL,
  the one before it the source directory, which gets its trailing "/" here.
\<close>

definition parseOptions :: "(string \<Rightarrow> bool) \<Rightarrow> string list \<Rightarrow> CmdOptions \<Rightarrow> ending + CmdOptions" where
  "parseOptions file_exists app_args options =
     (let argCount = length app_args
      in if argCount < 3 then
           (if argCount \<ge> 2 \<and> (app_args ! 1 = ''-v'' \<or> app_args ! 1 = ''--version'')
            then Inl ShowVersion else Inl Help)
         else
           (let url = last app_args;
                args1 = butlast app_args;
                dir = last args1;
                args2 = butlast args1;
                dir' = (if \<not> endsWith dir ''/'' then dir @ ''/'' else dir)
            in if \<not> file_exists dir' then Inl SourceDirMissing
               else (case parse_args (tl args2) (options\<lparr>target_url := url, source_dir := dir'\<rparr>) of
                       Inl e \<Rightarrow> Inl e
                     | Inr options' \<Rightarrow>
                         if target_url options' = [] \<or> source_dir options' = [] then Inl Help
                         else Inr options')))"

subsection \<open>The target URL (lines 295-312)\<close>

text \<open>
  \<open>dav\<close> is what \<^verbatim>\<open>account->davPath()\<close> returns after \<^verbatim>\<open>setNonShib\<close> and \<^verbatim>\<open>setDavPath\<close>
  (the account class is declared in \<^verbatim>\<open>account.h\<close>).
\<close>

definition rewrite_target_url :: "string \<Rightarrow> string \<Rightarrow> string" where
  "rewrite_target_url dav url =
     (let u1 = (if \<not> endsWith url ''/'' then url @ ''/'' else url);
          u2 = (if \<not> contains u1 dav then u1 @ dav else u1)
      in if startsWith u2 ''http'' then ''owncloud'' @ drop 4 u2 else u2)"

subsection \<open>Credentials (lines 315-351)\<close>

text \<open>
  Modelled from the spec: \<^verbatim>\<open>NetrcParser\<close> (declared in \<^verbatim>\<open>netrcparser.h\<close>, not among the
  sources at hand), of which the spec gives \<^verbatim>\<open>parse() -> bool\<close> and
  \<^verbatim>\<open>find(host) -> (user, password)\<close>. The record holds the answer of \<^verbatim>\<open>parse()\<close>, the
  entries read from the file, by host, and the pair that \<^verbatim>\<open>find\<close> returns for a host
  without an entry.
\<close>

record netrc =
  parse_ok :: bool
  entries :: "(string \<times> (string \<times> string)) list"
  no_entry_pair :: "string \<times> string"

text \<open>
  Modelled from the spec: \<^verbatim>\<open>NetrcParser::find\<close>. It returns a pair by value for every
  host: the pair of the host's entry, or \<open>no_entry_pair\<close>. It is given the host alone, so
  the pair cannot depend on the credentials of the earlier stages.
\<close>

definition netrc_find :: "netrc \<Rightarrow> string \<Rightarrow> string \<times> string" where
  "netrc_find n host = (case map_of (entries n) host of Some pair \<Rightarrow> pair | None \<Rightarrow> no_entry_pair n)"

text \<open>Stages 1 and 2, lines 321-330.\<close>

definition credentials_from_url_and_options :: "CmdOptions \<Rightarrow> string \<Rightarrow> string \<Rightarrow> string \<times> string" where
  "credentials_from_url_and_options options url_userName url_password =
     (let user0 = url_userName;
          password0 = url_password;
          user1 = (if user options \<noteq> [] then user options else user0);
          password1 = (if password options \<noteq> [] then password options else password0)
      in (user1, password1))"

text \<open>Stage 3, lines 332-339.\<close>

definition credentials_from_netrc :: "CmdOptions \<Rightarrow> netrc \<Rightarrow> string \<Rightarrow> string \<times> string \<Rightarrow> string \<times> string" where
  "credentials_from_netrc options parser url_host up =
     (if useNetrc options then
        (if parse_ok parser then netrc_find parser url_host else up)
      else up)"

text \<open>
  Stage 4, lines 341-351. Standard input is the list of its remaining lines;
  \<^verbatim>\<open>std::getline\<close> at the end of input leaves the string empty.
\<close>

definition getline :: "string list \<Rightarrow> string \<times> string list" where
  "getline inp = (case inp of [] \<Rightarrow> ([], []) | l # ls \<Rightarrow> (l, ls))"

definition credentials_from_prompt :: "CmdOptions \<Rightarrow> string list \<Rightarrow> string \<times> string \<Rightarrow> (string \<times> string) \<times> string list" where
  "credentials_from_prompt options inp up =
     (if interactive options then
        (let (user1, inp1) = (if fst up = [] then getline inp else (fst up, inp));
             (password1, inp2) = (if snd up = [] then getline inp1 else (snd up, inp1))
         in ((user1, password1), inp2))
      else (up, inp))"

definition resolve_credentials ::
  "CmdOptions \<Rightarrow> string \<Rightarrow> string \<Rightarrow> string \<Rightarrow> netrc \<Rightarrow> string list \<Rightarrow> (string \<times> string) \<times> string list" where
  "resolve_credentials options url_userName url_password url_host parser inp =
     credentials_from_prompt options inp
       (credentials_from_netrc options parser url_host
          (credentials_from_url_and_options options url_userName url_password))"

subsection \<open>The journal and \<^verbatim>\<open>selectiveSyncFixup\<close>\<close>

text \<open>
  Modelled from the spec: the journal, \<^verbatim>\<open>SyncJournalDb\<close> (declared in
  \<^verbatim>\<open>syncjournaldb.h\<close>, not among the sources at hand), of which the spec gives
  \<^verbatim>\<open>exists()\<close>, \<^verbatim>\<open>getSelectiveSyncList(kind)\<close>, \<^verbatim>\<open>setSelectiveSyncList(kind, list)\<close> and
  \<^verbatim>\<open>avoidReadFromDbOnNextSync(path)\<close>. The record holds what they read and write:
  \<^item> \<open>db_exists\<close>: the answer of \<^verbatim>\<open>journal->exists()\<close>;
  \<^item> \<open>db_openable\<close>: whether \<^verbatim>\<open>SqlDatabase::openOrCreateReadWrite(databaseFilePath())\<close>
    succeeds;
  \<^item> \<open>blacklist\<close>: the list stored under \<^verbatim>\<open>SelectiveSyncBlackList\<close>, returned by
    \<^verbatim>\<open>getSelectiveSyncList\<close> and replaced by \<^verbatim>\<open>setSelectiveSyncList\<close>;
  \<^item> \<open>avoid_read\<close>: the paths \<^verbatim>\<open>avoidReadFromDbOnNextSync\<close> has been called on, and
    \<open>avoid_calls\<close>: how many such calls were made.
\<close>

record journal =
  db_exists :: bool
  db_openable :: bool
  blacklist :: "string list"
  avoid_read :: "string set"
  avoid_calls :: nat

text \<open>Line 263: \<^verbatim>\<open>(oldBlackListSet - blackListSet) + (blackListSet - oldBlackListSet)\<close>.\<close>

definition changes :: "string list \<Rightarrow> string list \<Rightarrow> string set" where
  "changes oldList newList =
     (let oldBlackListSet = set oldList; blackListSet = set newList
      in (oldBlackListSet - blackListSet) \<union> (blackListSet - oldBlackListSet))"

text \<open>
  Modelled from the spec: \<^verbatim>\<open>avoidReadFromDbOnNextSync(path)\<close> marks the path; the journal
  records the marked paths and counts the calls. Lines 264-266: the \<^verbatim>\<open>foreach\<close> makes
  this call once on each element of the set, in the set's own (unspecified) order.
\<close>

definition avoidReadFromDbOnNextSync_each :: "string set \<Rightarrow> journal \<Rightarrow> journal" where
  "avoidReadFromDbOnNextSync_each S j =
     j\<lparr>avoid_read := avoid_read j \<union> S, avoid_calls := avoid_calls j + card S\<rparr>"

text \<open>
  Modelled from the spec: \<^verbatim>\<open>setSelectiveSyncList(kind, list)\<close> replaces the stored list,
  which \<^verbatim>\<open>getSelectiveSyncList(kind)\<close> returns.
\<close>

definition setSelectiveSyncList :: "string list \<Rightarrow> journal \<Rightarrow> journal" where
  "setSelectiveSyncList newList j = j\<lparr>blacklist := newList\<rparr>"

text \<open>Lines 250-269.\<close>

definition selectiveSyncFixup :: "journal \<Rightarrow> string list \<Rightarrow> journal" where
  "selectiveSyncFixup j newList =
     (if \<not> db_exists j then j
      else if \<not> db_openable j then j
      else setSelectiveSyncList newList
             (avoidReadFromDbOnNextSync_each (changes (blacklist j) newList) j))"

subsection \<open>One pass of the restart loop (lines 386-478)\<close>

text \<open>
  The calls \<^verbatim>\<open>main\<close> makes on its collaborators, and what it logs.
  \<^item> \<open>AccountSetUrl scheme userName password host path\<close> is \<^verbatim>\<open>account->setUrl(url)\<close>
    (line 378) with the parts of the \<^verbatim>\<open>QUrl\<close> it is given.
  \<^item> \<open>SetApplicationProxy host port\<close> is line 416; the port is the value that arrives in
    \<^verbatim>\<open>QNetworkProxy\<close>, whose constructor takes it as a \<^verbatim>\<open>quint16\<close>.
  \<^item> \<open>NewSyncEngine localPath url folder\<close> is the construction of the engine at line 469;
    \<open>url\<close> is the string of which the engine receives \<^verbatim>\<open>QUrl(url).path()\<close>.
\<close>

datatype event =
    NewHttpCredentialsText string string
  | AccountSetUrl string string string string string
  | CsyncCreate string string
  | CsyncSetLogLevel int
  | CsyncInit
  | SetIgnoreHiddenFiles bool
  | SetUseSystemConfiguration bool
  | SetApplicationProxy string int
  | SetupQtProxyFromConfig
  | CsyncAddExcludeList string
  | OpenUnsyncedFolders string
  | CriticalCouldNotOpen string
  | FatalCannotLoadExcludeList
  | NewSyncJournalDb string
  | SelectiveSyncFixup "string list"
  | NewSyncEngine string string string
  | StartSync
  | CsyncDestroy
  | DebugRestartingSync int
  | WarningRestartCountExceeded int

text \<open>
  Lines 401-425. \<^verbatim>\<open>port\<close> is an \<^verbatim>\<open>int\<close>; passing it to the \<^verbatim>\<open>quint16\<close> parameter of
  \<^verbatim>\<open>QNetworkProxy\<close> keeps its value modulo \<open>2 ^ 16\<close>. In the \<^verbatim>\<open>else\<close> branch the local
  \<^verbatim>\<open>url\<close> is computed and dropped; the one effect is the call of
  \<^verbatim>\<open>clientProxy.setupQtProxyFromConfig()\<close>.
\<close>

definition setup_proxy :: "string option \<Rightarrow> event list" where
  "setup_proxy p =
     (case p of
        Some proxy_string \<Rightarrow>
          (let pList = split_sep (CHR '':'') proxy_string
           in if length pList = 3 then
                (let host = pList ! 1;
                     host' = (if startsWith host ''//'' then drop 2 host else host);
                     port = toInt (pList ! 2)
                 in [SetUseSystemConfiguration False,
                     SetApplicationProxy host' (port mod 2 ^ 16)])
              else [])
      | None \<Rightarrow> [SetupQtProxyFromConfig])"

text \<open>
  Lines 427-437 and 457-461. \<open>add_exclude_list\<close> is \<^verbatim>\<open>csync_add_exclude_list\<close>, which
  returns an \<^verbatim>\<open>int\<close>: the two variables start as \<^verbatim>\<open>false\<close>, that is 0, and the run is
  fatal ("Cannot load ...") when both are non-zero, so a non-zero return is a list that
  did not load.
\<close>

definition load_exclude_list :: "(string \<Rightarrow> int) \<Rightarrow> string \<Rightarrow> int \<times> event list" where
  "load_exclude_list add_exclude_list path =
     (if path \<noteq> [] then (add_exclude_list path, [CsyncAddExcludeList path]) else (0, []))"

definition exclude_lists_fatal :: "int \<Rightarrow> int \<Rightarrow> bool" where
  "exclude_lists_fatal loadedSystemExcludeList loadedUserExcludeList =
     (loadedSystemExcludeList \<noteq> 0 \<and> loadedUserExcludeList \<noteq> 0)"

text \<open>
  Line 446: \<^verbatim>\<open>QStringList::filter(QRegExp)\<close> keeps the strings in which the expression
  matches somewhere. \<^verbatim>\<open>\S+\<close> matches in a string that has a character which is not
  white space; \<^verbatim>\<open>^[^#]\<close> matches in a string whose first character exists and is not "#".
\<close>

definition matches_nonspace :: "string \<Rightarrow> bool" where
  "matches_nonspace s = list_ex (\<lambda>c. \<not> isSpace c) s"

definition matches_leading_non_hash :: "string \<Rightarrow> bool" where
  "matches_leading_non_hash s = (case s of [] \<Rightarrow> False | c # _ \<Rightarrow> c \<noteq> CHR ''#'')"

text \<open>Lines 448-452.\<close>

definition append_slash :: "string \<Rightarrow> string" where
  "append_slash s = (if \<not> endsWith s ''/'' then s @ ''/'' else s)"

text \<open>
  Lines 439-454. \<open>file\<close> is the text of the file named by \<^verbatim>\<open>--unsyncedfolders\<close>, or
  \<open>None\<close> when it cannot be opened.
\<close>

definition read_selectiveSyncList :: "string \<Rightarrow> string option \<Rightarrow> string list \<times> event list" where
  "read_selectiveSyncList path file =
     (if path \<noteq> [] then
        (case file of
           None \<Rightarrow> ([], [OpenUnsyncedFolders path, CriticalCouldNotOpen path])
         | Some text \<Rightarrow>
             (map append_slash
                (filter matches_leading_non_hash
                   (filter matches_nonspace (split_sep (CHR 0x0A) text))),
              [OpenUnsyncedFolders path]))
      else ([], []))"

text \<open>
  What the world outside the driver answers during one pass: the path of the system
  exclude file (\<^verbatim>\<open>ConfigFile::excludeFileFromSystem()\<close>), the return value of
  \<^verbatim>\<open>csync_add_exclude_list\<close> for a path, the text of the unsynced-folders file, and the
  engine: what a sync does to the journal and whether \<^verbatim>\<open>isAnotherSyncNeeded()\<close> holds
  after it.
\<close>

record pass_env =
  excludeFileFromSystem :: string
  add_exclude_list :: "string \<Rightarrow> int"
  unsynced_file :: "string option"
  engine :: "journal \<Rightarrow> journal \<times> bool"

text \<open>
  Lines 386-478: from the label \<^verbatim>\<open>restart_sync\<close> to \<^verbatim>\<open>csync_destroy\<close>. \<open>remUrl\<close> is the
  UTF-8 copy of the target URL taken at line 362 and \<open>folder\<close> the local of line 369,
  both set before the label. The result is the events of the pass and, unless the pass
  is fatal, the journal after it and the engine's answer.
\<close>

definition run_pass ::
  "CmdOptions \<Rightarrow> string \<Rightarrow> string \<Rightarrow> pass_env \<Rightarrow> journal
   \<Rightarrow> event list \<times> (journal \<times> bool) option" where
  "run_pass options remUrl folder env j =
     (let ev1 = [CsyncCreate (source_dir options) remUrl,
                 CsyncSetLogLevel (if silent options then 1 else 11),
                 CsyncInit,
                 SetIgnoreHiddenFiles (ignoreHiddenFiles options)];
          ev2 = setup_proxy (proxy options);
          (loadedSystemExcludeList, ev3) =
             load_exclude_list (add_exclude_list env) (excludeFileFromSystem env);
          (loadedUserExcludeList, ev4) =
             load_exclude_list (add_exclude_list env) (exclude options);
          (selectiveSyncList, ev5) =
             read_selectiveSyncList (unsyncedfolders options) (unsynced_file env);
          before = ev1 @ ev2 @ ev3 @ ev4 @ ev5
      in if exclude_lists_fatal loadedSystemExcludeList loadedUserExcludeList
         then (before @ [FatalCannotLoadExcludeList], None)
         else
           (let (j1, ev6) =
                  (if selectiveSyncList \<noteq> []
                   then (selectiveSyncFixup j selectiveSyncList,
                         [SelectiveSyncFixup selectiveSyncList])
                   else (j, []));
                (j2, another) = engine env j1
            in (before @ [NewSyncJournalDb (source_dir options)] @ ev6
                  @ [NewSyncEngine (source_dir options) (target_url options) folder,
                     StartSync, CsyncDestroy],
                Some (j2, another))))"

subsection \<open>The restart loop (lines 385-489) and \<^verbatim>\<open>main\<close>\<close>

text \<open>
  \<open>envs n\<close> is the environment of the pass that runs with \<^verbatim>\<open>restartCount = n\<close>. The
  counter only grows while it is below \<^verbatim>\<open>restartTimes\<close>, so it never leaves the range of
  an \<^verbatim>\<open>int\<close>. The result is the events, how the process ends, and the journal.
\<close>

function sync_loop ::
  "CmdOptions \<Rightarrow> string \<Rightarrow> string \<Rightarrow> (nat \<Rightarrow> pass_env) \<Rightarrow> int \<Rightarrow> journal
   \<Rightarrow> event list \<times> ending \<times> journal" where
  "sync_loop options remUrl folder envs restartCount j =
     (case run_pass options remUrl folder (envs (nat restartCount)) j of
        (evs, None) \<Rightarrow> (evs, FatalExcludeList, j)
      | (evs, Some (j', another)) \<Rightarrow>
          if another then
            (if restartCount < restartTimes options then
               (case sync_loop options remUrl folder envs (restartCount + 1) j' of
                  (evs', r) \<Rightarrow> (evs @ [DebugRestartingSync (restartCount + 1)] @ evs', r))
             else (evs @ [WarningRestartCountExceeded restartCount], Returned 0, j'))
          else (evs, Returned 0, j'))"
  by pat_completeness auto
termination
  by (relation "measure (\<lambda>(options, remUrl, folder, envs, restartCount, j).
                  nat (restartTimes options - restartCount))") auto

declare sync_loop.simps [simp del]

text \<open>
  What \<^verbatim>\<open>main\<close> is given besides the arguments: \<^verbatim>\<open>QFile::exists\<close>, whether
  \<^verbatim>\<open>Account::create()\<close> returned an account, the account's \<^verbatim>\<open>davPath()\<close> as a function
  of the \<^verbatim>\<open>nonShib\<close> flag and the \<^verbatim>\<open>--davpath\<close> option, the scheme, user name, password,
  host and path that \<^verbatim>\<open>QUrl::fromUserInput\<close> finds in the target URL, the netrc parser
  and standard input.
\<close>

record main_env =
  file_exists :: "string \<Rightarrow> bool"
  account_created :: bool
  account_davPath :: "bool \<Rightarrow> string \<Rightarrow> string"
  url_scheme :: "string \<Rightarrow> string"
  url_userName :: "string \<Rightarrow> string"
  url_password :: "string \<Rightarrow> string"
  url_host :: "string \<Rightarrow> string"
  url_path :: "string \<Rightarrow> string"
  netrc_parser :: netrc
  stdin :: "string list"

text \<open>
  Lines 296-312: the options as they are when the restart loop is entered. Only
  \<^verbatim>\<open>target_url\<close> is assigned after \<^verbatim>\<open>parseOptions\<close>.
\<close>

definition options_after_rewrite :: "main_env \<Rightarrow> CmdOptions \<Rightarrow> CmdOptions" where
  "options_after_rewrite menv options =
     options\<lparr>target_url :=
       rewrite_target_url (account_davPath menv (nonShib options) (davPath options))
         (target_url options)\<rparr>"

text \<open>
  Lines 321-351 on the URL of the options: the credentials of the run.
\<close>

definition resolved :: "main_env \<Rightarrow> CmdOptions \<Rightarrow> string \<times> string" where
  "resolved menv options =
     fst (resolve_credentials options (url_userName menv (target_url options))
            (url_password menv (target_url options)) (url_host menv (target_url options))
            (netrc_parser menv) (stdin menv))"

text \<open>
  Lines 353-368 and 378: the URL given to the account. The user name and the password
  are filled in when the URL has none, the path is cut before the dav path, and
  "owncloud" in the scheme is replaced by "http".
\<close>

definition account_url :: "main_env \<Rightarrow> CmdOptions \<Rightarrow> string \<times> string \<Rightarrow> event" where
  "account_url menv options up =
     (let url = target_url options;
          userName' = (if url_userName menv url = [] then fst up else url_userName menv url);
          password' = (if url_password menv url = [] then snd up else url_password menv url);
          splitted = split_str (account_davPath menv (nonShib options) (davPath options))
                       (url_path menv url)
      in AccountSetUrl (replace_all ''owncloud'' ''http'' (url_scheme menv url))
           userName' password' (url_host menv url) (value_at splitted 0))"

text \<open>Lines 365 and 369: the folder, what follows the dav path in the URL's path.\<close>

definition sync_folder :: "main_env \<Rightarrow> CmdOptions \<Rightarrow> string" where
  "sync_folder menv options =
     value_at (split_str (account_davPath menv (nonShib options) (davPath options))
                 (url_path menv (target_url options))) 1"

text \<open>Lines 272-490.\<close>

definition main ::
  "main_env \<Rightarrow> (nat \<Rightarrow> pass_env) \<Rightarrow> string list \<Rightarrow> journal \<Rightarrow> event list \<times> ending \<times> journal" where
  "main menv envs args j =
     (case parseOptions (file_exists menv) args initial_options of
        Inl e \<Rightarrow> ([], e, j)
      | Inr parsed \<Rightarrow>
          if \<not> account_created menv then ([], FatalAccount, j)
          else
            (let options = options_after_rewrite menv parsed;
                 (user1, password1) = resolved menv options;
                 remUrl = target_url options;
                 folder = sync_folder menv options
             in (case sync_loop options remUrl folder envs 0 j of
                   (evs, r) \<Rightarrow>
                     (NewHttpCredentialsText user1 password1
                        # account_url menv options (user1, password1) # evs, r))))"

subsection \<open>Reading the events\<close>

text \<open>
  The events with which a pass builds its low-level context, before the check of the
  exclude lists: lines 390-454.
\<close>

definition context_events :: "CmdOptions \<Rightarrow> string \<Rightarrow> pass_env \<Rightarrow> event list" where
  "context_events options remUrl env =
     [CsyncCreate (source_dir options) remUrl,
      CsyncSetLogLevel (if silent options then 1 else 11),
      CsyncInit,
      SetIgnoreHiddenFiles (ignoreHiddenFiles options)]
     @ setup_proxy (proxy options)
     @ snd (load_exclude_list (add_exclude_list env) (excludeFileFromSystem env))
     @ snd (load_exclude_list (add_exclude_list env) (exclude options))
     @ snd (read_selectiveSyncList (unsyncedfolders options) (unsynced_file env))"

text \<open>The events that only the loop itself and the code before it produce.\<close>

fun outside_pass :: "event \<Rightarrow> bool" where
  "outside_pass (DebugRestartingSync n) = True"
| "outside_pass (WarningRestartCountExceeded n) = True"
| "outside_pass (NewHttpCredentialsText u p) = True"
| "outside_pass (AccountSetUrl sc u p h pa) = True"
| "outside_pass e = False"

subsection \<open>The selective-sync list in the words of the specification\<close>

text \<open>
  The lines of the text without the empty lines, the lines of white space alone and the
  lines that begin with "#", each with a "/" appended unless it ends with one.
\<close>

definition selective_sync_spec :: "string \<Rightarrow> string list" where
  "selective_sync_spec text =
     map (\<lambda>l. if endsWith l ''/'' then l else l @ ''/'')
       (filter (\<lambda>l. \<not> (l = [] \<or> list_all isSpace l) \<and> \<not> startsWith l ''#'')
          (split_sep (CHR 0x0A) text))"

subsection \<open>An example run\<close>

text \<open>
  A world in which every file exists, the account's dav path is "remote.php/webdav/", the
  URL is read as owncloud://example.com/remote.php/webdav/ and carries no credentials,
  netrc is not readable and the user types "alice" and "pw";
  there are no exclude files, the unsynced-folders file holds the one line "a", and the
  engine creates the journal and asks for another sync after each of the first \<open>r\<close>
  passes.
\<close>

definition example_main_env :: main_env where
  "example_main_env =
     \<lparr>file_exists = (\<lambda>_. True), account_created = True,
      account_davPath = (\<lambda>_ _. ''remote.php/webdav/''),
      url_scheme = (\<lambda>_. ''owncloud''), url_userName = (\<lambda>_. []), url_password = (\<lambda>_. []),
      url_host = (\<lambda>_. ''example.com''), url_path = (\<lambda>_. ''/remote.php/webdav/''),
      netrc_parser = \<lparr>parse_ok = False, entries = [], no_entry_pair = ([], [])\<rparr>,
      stdin = [''alice'', ''pw'']\<rparr>"

definition example_envs :: "nat \<Rightarrow> nat \<Rightarrow> pass_env" where
  "example_envs r n =
     \<lparr>excludeFileFromSystem = [], add_exclude_list = (\<lambda>_. 0), unsynced_file = Some ''a'',
      engine = (\<lambda>j. (j\<lparr>db_exists := True\<rparr>, n < r))\<rparr>"

text \<open>
  The same world with a system exclude file; every exclude file loads.
\<close>

definition example_envs_lists :: "nat \<Rightarrow> nat \<Rightarrow> pass_env" where
  "example_envs_lists r n =
     \<lparr>excludeFileFromSystem = ''/etc/sync-exclude.lst'', add_exclude_list = (\<lambda>_. 0),
      unsynced_file = Some ''a'', engine = (\<lambda>j. (j\<lparr>db_exists := True\<rparr>, n < r))\<rparr>"

definition example_journal :: journal where
  "example_journal =
     \<lparr>db_exists = False, db_openable = True, blacklist = [], avoid_read = {}, avoid_calls = 0\<rparr>"

text \<open>
  The command line of the example, what \<^verbatim>\<open>parseOptions\<close> makes of it, the target URL
  after lines 296-312, and the events of one pass in the world with the exclude files.
\<close>

definition example_args :: "string list" where
  "example_args =
     [''owncloudcmd'', ''--exclude'', ''my.lst'', ''--unsyncedfolders'', ''list.txt'',
      ''/tmp/sync'', ''http://example.com'']"

definition example_parsed :: CmdOptions where
  "example_parsed =
     initial_options\<lparr>source_dir := ''/tmp/sync/'', target_url := ''http://example.com'',
                      exclude := ''my.lst'', unsyncedfolders := ''list.txt''\<rparr>"

definition example_url :: string where
  "example_url = ''owncloud://example.com/remote.php/webdav/''"

definition example_pass_events :: "event list" where
  "example_pass_events =
     [CsyncCreate ''/tmp/sync/'' ''owncloud://example.com/remote.php/webdav/'',
      CsyncSetLogLevel 11, CsyncInit, SetIgnoreHiddenFiles True, SetupQtProxyFromConfig,
      CsyncAddExcludeList ''/etc/sync-exclude.lst'', CsyncAddExcludeList ''my.lst'',
      OpenUnsyncedFolders ''list.txt'', NewSyncJournalDb ''/tmp/sync/'',
      SelectiveSyncFixup [''a/''],
      NewSyncEngine ''/tmp/sync/'' ''owncloud://example.com/remote.php/webdav/'' [],
      StartSync, CsyncDestroy]"

section \<open>Properties\<close>

subsection \<open>Reconciliation\<close>

lemma changes_same: "changes xs xs = {}"
  by (simp add: changes_def Let_def)

lemma finite_changes: "finite (changes xs ys)"
  by (simp add: changes_def Let_def)

text \<open>
  C8. For the old blacklist {"/a/", "/b/"} and the new list {"/b/", "/c/"}, on a journal
  that exists and whose database opens, \<^verbatim>\<open>selectiveSyncFixup\<close> calls
  \<^verbatim>\<open>avoidReadFromDbOnNextSync\<close> on exactly "/a/" and "/c/" (two calls) and stores
  ["/b/", "/c/"] as the blacklist.
\<close>

theorem reconcile_example:
  "selectiveSyncFixup
     \<lparr>db_exists = True, db_openable = True, blacklist = [''/a/'', ''/b/''],
      avoid_read = {}, avoid_calls = 0\<rparr> [''/b/'', ''/c/'']
   = \<lparr>db_exists = True, db_openable = True, blacklist = [''/b/'', ''/c/''],
      avoid_read = {''/a/'', ''/c/''}, avoid_calls = 2\<rparr>"
proof -
  have c: "changes [''/a/'', ''/b/''] [''/b/'', ''/c/''] = {''/a/'', ''/c/''}"
    by (auto simp add: changes_def)
  show ?thesis
    by (simp add: selectiveSyncFixup_def setSelectiveSyncList_def
        avoidReadFromDbOnNextSync_each_def c)
qed

text \<open>
  C9. \<^verbatim>\<open>selectiveSyncFixup\<close> is idempotent: after one call with a list, a second call
  with the same list has an empty change set when it gets to compute one, and in every
  case makes no call of \<^verbatim>\<open>avoidReadFromDbOnNextSync\<close> and leaves the journal as the first
  call left it.
\<close>

theorem reconcile_idempotent:
  "selectiveSyncFixup (selectiveSyncFixup j newList) newList = selectiveSyncFixup j newList
   \<and> avoid_calls (selectiveSyncFixup (selectiveSyncFixup j newList) newList)
       = avoid_calls (selectiveSyncFixup j newList)
   \<and> (if db_exists j \<and> db_openable j
      then changes (blacklist (selectiveSyncFixup j newList)) newList = {}
      else selectiveSyncFixup j newList = j)"
  by (simp add: selectiveSyncFixup_def setSelectiveSyncList_def
      avoidReadFromDbOnNextSync_each_def changes_same)

text \<open>
  C3. On a journal that does not exist yet (first run) \<^verbatim>\<open>selectiveSyncFixup\<close> returns at
  line 253, before the \<^verbatim>\<open>setSelectiveSyncList\<close> of line 268: it makes no call of
  \<^verbatim>\<open>avoidReadFromDbOnNextSync\<close> and it does not store the new list either; the journal is
  left as it was. So in a first run with \<^verbatim>\<open>--unsyncedfolders list.txt\<close>, the file holding
  the line "a", the pass calls \<^verbatim>\<open>selectiveSyncFixup\<close> with ["a/"] and then starts the
  engine on a journal whose blacklist is still empty (the engine of this pass hands its
  journal back as it got it): the list of the command line is not in force during the sync.
\<close>

theorem reconcile_first_run_drops_list:
  "selectiveSyncFixup (j\<lparr>db_exists := False\<rparr>) newList = j\<lparr>db_exists := False\<rparr>
   \<and> run_pass (initial_options\<lparr>source_dir := ''/tmp/sync/'', target_url := ''owncloud://h/'',
                               unsyncedfolders := ''list.txt''\<rparr>) ''owncloud://h/'' []
       \<lparr>excludeFileFromSystem = [], add_exclude_list = (\<lambda>_. 0), unsynced_file = Some ''a'',
        engine = (\<lambda>j. (j, False))\<rparr>
       \<lparr>db_exists = False, db_openable = True, blacklist = [], avoid_read = {}, avoid_calls = 0\<rparr>
     = ([CsyncCreate ''/tmp/sync/'' ''owncloud://h/'', CsyncSetLogLevel 11, CsyncInit,
         SetIgnoreHiddenFiles True, SetupQtProxyFromConfig, OpenUnsyncedFolders ''list.txt'',
         NewSyncJournalDb ''/tmp/sync/'', SelectiveSyncFixup [''a/''],
         NewSyncEngine ''/tmp/sync/'' ''owncloud://h/'' [], StartSync, CsyncDestroy],
        Some (\<lparr>db_exists = False, db_openable = True, blacklist = [], avoid_read = {},
               avoid_calls = 0\<rparr>, False))"
proof -
  have l: "read_selectiveSyncList ''list.txt'' (Some ''a'')
           = ([''a/''], [OpenUnsyncedFolders ''list.txt''])"
    by (simp add: read_selectiveSyncList_def matches_nonspace_def matches_leading_non_hash_def
        isSpace_def append_slash_def endsWith_def)
  have f: "selectiveSyncFixup (j\<lparr>db_exists := False\<rparr>) newList = j\<lparr>db_exists := False\<rparr>"
    by (simp add: selectiveSyncFixup_def)
  have r: "run_pass (initial_options\<lparr>source_dir := ''/tmp/sync/'', target_url := ''owncloud://h/'',
                               unsyncedfolders := ''list.txt''\<rparr>) ''owncloud://h/'' []
       \<lparr>excludeFileFromSystem = [], add_exclude_list = (\<lambda>_. 0), unsynced_file = Some ''a'',
        engine = (\<lambda>j. (j, False))\<rparr>
       \<lparr>db_exists = False, db_openable = True, blacklist = [], avoid_read = {}, avoid_calls = 0\<rparr>
     = ([CsyncCreate ''/tmp/sync/'' ''owncloud://h/'', CsyncSetLogLevel 11, CsyncInit,
         SetIgnoreHiddenFiles True, SetupQtProxyFromConfig, OpenUnsyncedFolders ''list.txt'',
         NewSyncJournalDb ''/tmp/sync/'', SelectiveSyncFixup [''a/''],
         NewSyncEngine ''/tmp/sync/'' ''owncloud://h/'' [], StartSync, CsyncDestroy],
        Some (\<lparr>db_exists = False, db_openable = True, blacklist = [], avoid_read = {},
               avoid_calls = 0\<rparr>, False))"
    by (simp add: run_pass_def initial_options_def setup_proxy_def load_exclude_list_def
        exclude_lists_fatal_def l selectiveSyncFixup_def)
  from f r show ?thesis by (rule conjI)
qed

subsection \<open>Credentials\<close>

lemma netrc_find_entry:
  "map_of (entries parser) host = Some pair \<Longrightarrow> netrc_find parser host = pair"
  by (simp add: netrc_find_def)

lemma netrc_find_no_entry:
  "map_of (entries parser) host = None \<Longrightarrow> netrc_find parser host = no_entry_pair parser"
  by (simp add: netrc_find_def)

text \<open>
  Whatever \<^verbatim>\<open>find\<close> returns, some credentials of the earlier stages are changed by
  stage 3: its result does not depend on them.
\<close>

lemma netrc_stage_ignores_earlier_stages:
  "useNetrc options \<Longrightarrow> parse_ok parser \<Longrightarrow>
   credentials_from_netrc options parser host up = credentials_from_netrc options parser host up'"
  by (simp add: credentials_from_netrc_def)

text \<open>
  C1. With netrc enabled and the file parsed, stage 3 replaces user and password by the
  pair \<^verbatim>\<open>find\<close> returns for the host, both fields together and whether or not the host
  has an entry: for a host with an entry this is the entry's pair, for a host without one
  it is the pair \<^verbatim>\<open>find\<close> returns for a missing host, and the values of the earlier
  stages are lost. They are kept only when netrc is disabled or parsing fails.
\<close>

theorem netrc_overwrites_pair:
  "credentials_from_netrc options parser host (u, p) =
     (if useNetrc options \<and> parse_ok parser
      then (case map_of (entries parser) host of
              Some pair \<Rightarrow> pair
            | None \<Rightarrow> no_entry_pair parser)
      else (u, p))"
  by (simp add: credentials_from_netrc_def netrc_find_def)

theorem netrc_overwrites_pair_witness:
  "credentials_from_netrc (initial_options\<lparr>useNetrc := True\<rparr>)
     \<lparr>parse_ok = True, entries = [(''example.com'', (''bob'', ''secret''))],
      no_entry_pair = ([], [])\<rparr> ''example.com'' (''alice'', ''pw'')
   = (''bob'', ''secret'')"
  using netrc_overwrites_pair [of "initial_options\<lparr>useNetrc := True\<rparr>"
      "\<lparr>parse_ok = True, entries = [(''example.com'', (''bob'', ''secret''))],
        no_entry_pair = ([], [])\<rparr>" "''example.com''" "''alice''" "''pw''"]
  by simp

theorem netrc_no_entry_counterexample:
  "map_of (entries \<lparr>parse_ok = True, entries = [(''example.com'', (''bob'', ''secret''))],
                    no_entry_pair = ([], [])\<rparr>) ''other.org'' = None
   \<and> credentials_from_url_and_options
        (initial_options\<lparr>useNetrc := True, interactive := False,
                          user := ''alice'', password := ''pw''\<rparr>) [] []
       = (''alice'', ''pw'')
   \<and> resolve_credentials
        (initial_options\<lparr>useNetrc := True, interactive := False,
                          user := ''alice'', password := ''pw''\<rparr>) [] [] ''other.org''
        \<lparr>parse_ok = True, entries = [(''example.com'', (''bob'', ''secret''))],
         no_entry_pair = ([], [])\<rparr> []
       = (([], []), [])"
  by (simp add: resolve_credentials_def credentials_from_prompt_def
      credentials_from_netrc_def netrc_find_def credentials_from_url_and_options_def
      initial_options_def)

subsection \<open>Exclude lists\<close>

lemma exclude_policy:
  "exclude_lists_fatal (fst (load_exclude_list add sys)) (fst (load_exclude_list add usr))
   = (sys \<noteq> [] \<and> usr \<noteq> [] \<and> add sys \<noteq> 0 \<and> add usr \<noteq> 0)"
  by (auto simp add: exclude_lists_fatal_def load_exclude_list_def)

text \<open>
  C2. With no system exclude file and a \<^verbatim>\<open>--exclude\<close> file that
  \<^verbatim>\<open>csync_add_exclude_list\<close> fails to load (return value -1), the pass is not fatal: the
  journal object is created and the engine is started, with no exclude list loaded.
\<close>

theorem exclude_single_failure_proceeds:
  "run_pass (initial_options\<lparr>source_dir := ''/tmp/sync/'', target_url := ''owncloud://h/'',
                             exclude := ''/nonexistent''\<rparr>) ''owncloud://h/'' []
     \<lparr>excludeFileFromSystem = [], add_exclude_list = (\<lambda>_. - 1), unsynced_file = None,
      engine = (\<lambda>j. (j, False))\<rparr>
     \<lparr>db_exists = False, db_openable = True, blacklist = [], avoid_read = {}, avoid_calls = 0\<rparr>
   = ([CsyncCreate ''/tmp/sync/'' ''owncloud://h/'', CsyncSetLogLevel 11, CsyncInit,
       SetIgnoreHiddenFiles True, SetupQtProxyFromConfig, CsyncAddExcludeList ''/nonexistent'',
       NewSyncJournalDb ''/tmp/sync/'', NewSyncEngine ''/tmp/sync/'' ''owncloud://h/'' [],
       StartSync, CsyncDestroy],
      Some (\<lparr>db_exists = False, db_openable = True, blacklist = [], avoid_read = {},
             avoid_calls = 0\<rparr>, False))"
  by (simp add: run_pass_def initial_options_def setup_proxy_def load_exclude_list_def
      read_selectiveSyncList_def exclude_lists_fatal_def)

text \<open>
  The policy of lines 457-461 for all inputs: the pass is fatal exactly when both paths
  are non-empty and both loads return non-zero.
\<close>

lemma run_pass_fatal_iff:
  "snd (run_pass options remUrl folder env j) = None
   \<longleftrightarrow> (excludeFileFromSystem env \<noteq> [] \<and> exclude options \<noteq> []
        \<and> add_exclude_list env (excludeFileFromSystem env) \<noteq> 0
        \<and> add_exclude_list env (exclude options) \<noteq> 0)"
  by (simp add: run_pass_def exclude_lists_fatal_def load_exclude_list_def Let_def
      split: prod.splits)

subsection \<open>The proxy override\<close>

lemma split_sep_not_Nil: "split_sep sep s \<noteq> []"
  by (induction s) (auto split: list.splits)

lemma length_split_sep: "length (split_sep sep s) = Suc (count_list s sep)"
  by (induction s) (auto split: list.splits simp add: split_sep_not_Nil)

lemma split_sep_no_sep: "sep \<notin> set a \<Longrightarrow> split_sep sep a = [a]"
  by (induction a) auto

lemma split_sep_append:
  "sep \<notin> set a \<Longrightarrow> split_sep sep (a @ sep # b) = a # split_sep sep b"
  by (induction a) auto

text \<open>
  A string of the shape scheme://host:port, with no colon inside the three parts,
  installs exactly that host, with the integer value of the port modulo \<open>2 ^ 16\<close>.
\<close>

lemma setup_proxy_scheme_host_port:
  assumes "CHR '':'' \<notin> set scheme" and "CHR '':'' \<notin> set host" and "CHR '':'' \<notin> set port"
  shows "setup_proxy (Some (scheme @ ''://'' @ host @ '':'' @ port))
         = [SetUseSystemConfiguration False, SetApplicationProxy host (toInt port mod 2 ^ 16)]"
proof -
  have "CHR '':'' \<notin> set (''//'' @ host)"
    using assms(2) by simp
  then have "split_sep (CHR '':'') ((''//'' @ host) @ CHR '':'' # port) = (''//'' @ host) # [port]"
    using split_sep_append [of "CHR '':''" "''//'' @ host" port] split_sep_no_sep [OF assms(3)]
    by simp
  then have "split_sep (CHR '':'') (scheme @ CHR '':'' # ((''//'' @ host) @ CHR '':'' # port))
             = [scheme, ''//'' @ host, port]"
    using split_sep_append [OF assms(1)] by simp
  then have s: "split_sep (CHR '':'') (scheme @ CHR '':'' # CHR ''/'' # CHR ''/'' # host @ CHR '':'' # port)
             = [scheme, ''//'' @ host, port]"
    by simp
  show ?thesis
    unfolding setup_proxy_def by (simp add: s startsWith_def)
qed

lemma toInt_8080: "toInt ''8080'' = 8080"
  by (simp add: toInt_def trimmed_def isSpace_def isDigit_def digits_value_def
      digit_value_def Let_def)

lemma toInt_70000: "toInt ''70000'' = 70000"
  by (simp add: toInt_def trimmed_def isSpace_def isDigit_def digits_value_def
      digit_value_def Let_def)

lemma toInt_minus_1: "toInt ''-1'' = - 1"
  by (simp add: toInt_def trimmed_def isSpace_def isDigit_def digits_value_def
      digit_value_def Let_def)

lemma split_proxy_example:
  "split_sep (CHR '':'') ''http://192.168.178.23:8080'' = [''http'', ''//192.168.178.23'', ''8080'']"
  by simp

lemma split_proxy_70000: "split_sep (CHR '':'') ''http://h:70000'' = [''http'', ''//h'', ''70000'']"
  by simp

lemma split_proxy_minus_1: "split_sep (CHR '':'') ''http://h:-1'' = [''http'', ''//h'', ''-1'']"
  by simp

text \<open>
  C5. A proxy override with exactly three colon-delimited segments installs the second
  segment, without a leading "//", as the host and the integer value of the third,
  narrowed to 16 bits, as the port of the application proxy, after switching the system
  configuration off. A value from 0 to 65535 is installed as it is:
  "http://192.168.178.23:8080" gives host 192.168.178.23 and port 8080; "http://h:70000"
  gives port 4464 and "http://h:-1" port 65535. An override with any other number of
  segments installs nothing and does not call the ambient configuration either: that
  call is made only when no override was given.
\<close>

theorem proxy_override:
  "(length (split_sep (CHR '':'') p) = 3 \<longrightarrow>
      setup_proxy (Some p) =
        [SetUseSystemConfiguration False,
         SetApplicationProxy
           (if startsWith (split_sep (CHR '':'') p ! 1) ''//''
            then drop 2 (split_sep (CHR '':'') p ! 1) else split_sep (CHR '':'') p ! 1)
           (toInt (split_sep (CHR '':'') p ! 2) mod 2 ^ 16)]
      \<and> (0 \<le> toInt (split_sep (CHR '':'') p ! 2) \<and> toInt (split_sep (CHR '':'') p ! 2) < 2 ^ 16
           \<longrightarrow> toInt (split_sep (CHR '':'') p ! 2) mod 2 ^ 16 = toInt (split_sep (CHR '':'') p ! 2)))
   \<and> (length (split_sep (CHR '':'') p) \<noteq> 3 \<longrightarrow> setup_proxy (Some p) = [])
   \<and> setup_proxy None = [SetupQtProxyFromConfig]
   \<and> setup_proxy (Some ''http://192.168.178.23:8080'')
       = [SetUseSystemConfiguration False, SetApplicationProxy ''192.168.178.23'' 8080]
   \<and> setup_proxy (Some ''http://h:70000'')
       = [SetUseSystemConfiguration False, SetApplicationProxy ''h'' 4464]
   \<and> setup_proxy (Some ''http://h:-1'')
       = [SetUseSystemConfiguration False, SetApplicationProxy ''h'' 65535]"
proof -
  have a: "setup_proxy (Some ''http://192.168.178.23:8080'')
        = [SetUseSystemConfiguration False, SetApplicationProxy ''192.168.178.23'' 8080]"
    unfolding setup_proxy_def by (simp add: split_proxy_example toInt_8080 startsWith_def)
  have b: "setup_proxy (Some ''http://h:70000'')
        = [SetUseSystemConfiguration False, SetApplicationProxy ''h'' 4464]"
    unfolding setup_proxy_def by (simp add: split_proxy_70000 toInt_70000 startsWith_def)
  have c: "setup_proxy (Some ''http://h:-1'')
        = [SetUseSystemConfiguration False, SetApplicationProxy ''h'' 65535]"
    unfolding setup_proxy_def by (simp add: split_proxy_minus_1 toInt_minus_1 startsWith_def)
  show ?thesis
    unfolding a b c by (simp add: setup_proxy_def Let_def)
qed

lemma split_malformed_example: "split_sep (CHR '':'') ''localhost:8080'' = [''localhost'', ''8080'']"
  by simp

theorem proxy_override_witness:
  "length (split_sep (CHR '':'') ''http://192.168.178.23:8080'') = 3
   \<and> (0::int) \<le> toInt ''8080'' \<and> toInt ''8080'' < 2 ^ 16
   \<and> setup_proxy (Some ''http://192.168.178.23:8080'')
       = [SetUseSystemConfiguration False, SetApplicationProxy ''192.168.178.23'' 8080]
   \<and> length (split_sep (CHR '':'') ''http://h:70000'') = 3
   \<and> setup_proxy (Some ''http://h:70000'')
       = [SetUseSystemConfiguration False, SetApplicationProxy ''h'' (70000 mod 2 ^ 16)]
   \<and> length (split_sep (CHR '':'') ''localhost:8080'') \<noteq> 3
   \<and> setup_proxy (Some ''localhost:8080'') = []"
  using proxy_override [of "''http://192.168.178.23:8080''"]
    proxy_override [of "''http://h:70000''"]
    proxy_override [of "''localhost:8080''"]
  by (simp add: split_proxy_example split_proxy_70000 split_malformed_example toInt_8080
      toInt_70000)

theorem proxy_malformed_counterexample:
  "SetupQtProxyFromConfig \<notin> set (setup_proxy (Some ''localhost:8080''))
   \<and> SetupQtProxyFromConfig \<notin> set (fst (run_pass
        (initial_options\<lparr>source_dir := ''/tmp/sync/'', target_url := ''owncloud://h/'',
                          proxy := Some ''localhost:8080''\<rparr>) ''owncloud://h/'' []
        \<lparr>excludeFileFromSystem = [], add_exclude_list = (\<lambda>_. 0), unsynced_file = None,
         engine = (\<lambda>j. (j, False))\<rparr>
        \<lparr>db_exists = False, db_openable = True, blacklist = [], avoid_read = {},
         avoid_calls = 0\<rparr>))"
  by (simp add: run_pass_def initial_options_def setup_proxy_def split_malformed_example
      load_exclude_list_def read_selectiveSyncList_def exclude_lists_fatal_def)

subsection \<open>The selective-sync list\<close>

lemma matches_nonspace_iff: "matches_nonspace l \<longleftrightarrow> \<not> (l = [] \<or> list_all isSpace l)"
  by (induction l) (auto simp add: matches_nonspace_def)

lemma matches_leading_non_hash_iff:
  "matches_leading_non_hash l \<longleftrightarrow> l \<noteq> [] \<and> \<not> startsWith l ''#''"
  by (cases l) (auto simp add: matches_leading_non_hash_def startsWith_def)

lemma selectiveSyncList_refines_spec:
  "map append_slash
     (filter matches_leading_non_hash (filter matches_nonspace (split_sep (CHR 0x0A) text)))
   = selective_sync_spec text"
proof -
  have "append_slash = (\<lambda>l. if endsWith l ''/'' then l else l @ ''/'')"
    by (rule ext) (simp add: append_slash_def)
  moreover have "(\<lambda>l. matches_nonspace l \<and> matches_leading_non_hash l)
                 = (\<lambda>l. \<not> (l = [] \<or> list_all isSpace l) \<and> \<not> startsWith l ''#'')"
    by (rule ext) (auto simp add: matches_nonspace_iff matches_leading_non_hash_iff)
  ultimately show ?thesis
    by (simp add: selective_sync_spec_def conj_commute)
qed

lemma selective_sync_spec_ends_with_slash:
  "l \<in> set (selective_sync_spec text) \<Longrightarrow> endsWith l ''/''"
  by (auto simp add: selective_sync_spec_def endsWith_def)

text \<open>
  C10. When the file named by \<^verbatim>\<open>--unsyncedfolders\<close> can be read, the selective-sync list
  is the list of its lines without the empty lines, the lines of white space alone and
  the lines that begin with "#", each with a "/" appended unless it ends with one; and
  unless the pass is fatal, the engine runs on the journal that \<^verbatim>\<open>selectiveSyncFixup\<close>
  returns for this list (on the journal as it was when the list is empty).
\<close>

theorem selective_sync_list_built:
  assumes "unsyncedfolders options \<noteq> []" and "unsynced_file env = Some text"
  shows "fst (read_selectiveSyncList (unsyncedfolders options) (unsynced_file env))
           = selective_sync_spec text
         \<and> (if snd (run_pass options remUrl folder env j) = None
            then exclude_lists_fatal
                   (fst (load_exclude_list (add_exclude_list env) (excludeFileFromSystem env)))
                   (fst (load_exclude_list (add_exclude_list env) (exclude options)))
            else snd (run_pass options remUrl folder env j)
                 = Some (engine env
                           (if selective_sync_spec text \<noteq> []
                            then selectiveSyncFixup j (selective_sync_spec text) else j)))"
proof -
  have l: "read_selectiveSyncList (unsyncedfolders options) (unsynced_file env)
           = (selective_sync_spec text, [OpenUnsyncedFolders (unsyncedfolders options)])"
    using assms selectiveSyncList_refines_spec [of "text"]
    by (simp add: read_selectiveSyncList_def)
  show ?thesis
    by (simp add: l run_pass_def Let_def split: prod.splits)
qed

lemma selective_sync_example:
  "selective_sync_spec ''a\<newline># c\<newline>  \<newline>b/\<newline>''
   = [''a/'', ''b/'']"
  by (simp add: selective_sync_spec_def isSpace_def startsWith_def endsWith_def)

theorem selective_sync_list_built_witness:
  "fst (read_selectiveSyncList ''list.txt''
          (Some ''a\<newline># c\<newline>  \<newline>b/\<newline>''))
     = [''a/'', ''b/'']
   \<and> snd (run_pass (initial_options\<lparr>source_dir := ''/tmp/sync/'', target_url := ''owncloud://h/'',
                                    unsyncedfolders := ''list.txt''\<rparr>) ''owncloud://h/'' []
            \<lparr>excludeFileFromSystem = [], add_exclude_list = (\<lambda>_. 0),
             unsynced_file = Some ''a\<newline># c\<newline>  \<newline>b/\<newline>'',
             engine = (\<lambda>j. (j, False))\<rparr>
            \<lparr>db_exists = True, db_openable = True, blacklist = [''b/''], avoid_read = {},
             avoid_calls = 0\<rparr>)
     = Some (\<lparr>db_exists = True, db_openable = True, blacklist = [''a/'', ''b/''],
              avoid_read = {''a/''}, avoid_calls = 1\<rparr>, False)"
proof -
  let ?text = "''a\<newline># c\<newline>  \<newline>b/\<newline>''"
  let ?options = "initial_options\<lparr>source_dir := ''/tmp/sync/'', target_url := ''owncloud://h/'',
                                   unsyncedfolders := ''list.txt''\<rparr>"
  let ?env = "\<lparr>excludeFileFromSystem = [], add_exclude_list = (\<lambda>_. 0::int),
               unsynced_file = Some ?text, engine = (\<lambda>j::journal. (j, False))\<rparr>"
  let ?j = "\<lparr>db_exists = True, db_openable = True, blacklist = [''b/''], avoid_read = {},
             avoid_calls = 0\<rparr>"
  have a: "unsyncedfolders ?options \<noteq> []" by (simp add: initial_options_def)
  have b: "unsynced_file ?env = Some ?text" by simp
  have nf: "snd (run_pass ?options ''owncloud://h/'' [] ?env ?j) \<noteq> None"
    by (simp add: run_pass_fatal_iff)
  have c: "changes [''b/''] [''a/'', ''b/''] = {''a/''}"
    by (auto simp add: changes_def Let_def)
  have f: "selectiveSyncFixup ?j [''a/'', ''b/'']
           = \<lparr>db_exists = True, db_openable = True, blacklist = [''a/'', ''b/''],
              avoid_read = {''a/''}, avoid_calls = 1\<rparr>"
    by (simp add: selectiveSyncFixup_def setSelectiveSyncList_def
        avoidReadFromDbOnNextSync_each_def c)
  have e: "engine ?env = (\<lambda>j. (j, False))" by simp
  have u: "unsyncedfolders ?options = ''list.txt''" by (simp add: initial_options_def)
  note t = selective_sync_list_built [OF a b, of "''owncloud://h/''" "[]" ?j]
  from t have "fst (read_selectiveSyncList (unsyncedfolders ?options) (unsynced_file ?env))
               = selective_sync_spec ?text"
    by (rule conjunct1)
  then have r1: "fst (read_selectiveSyncList ''list.txt'' (Some ?text)) = [''a/'', ''b/'']"
    by (simp only: u b selective_sync_example)
  from t nf have "snd (run_pass ?options ''owncloud://h/'' [] ?env ?j)
        = Some (engine ?env (if selective_sync_spec ?text \<noteq> []
                             then selectiveSyncFixup ?j (selective_sync_spec ?text) else ?j))"
    by (simp only: if_False simp_thms)
  then have r2: "snd (run_pass ?options ''owncloud://h/'' [] ?env ?j)
        = Some (\<lparr>db_exists = True, db_openable = True, blacklist = [''a/'', ''b/''],
                 avoid_read = {''a/''}, avoid_calls = 1\<rparr>, False)"
    by (simp only: selective_sync_example f e) simp
  from r1 r2 show ?thesis by (simp only: simp_thms)
qed

subsection \<open>The events of a pass and of the loop\<close>

lemma run_pass_unfold:
  "run_pass options remUrl folder env j =
     (if snd (run_pass options remUrl folder env j) = None
      then (context_events options remUrl env @ [FatalCannotLoadExcludeList], None)
      else (context_events options remUrl env @ [NewSyncJournalDb (source_dir options)]
              @ (if fst (read_selectiveSyncList (unsyncedfolders options) (unsynced_file env)) \<noteq> []
                 then [SelectiveSyncFixup
                         (fst (read_selectiveSyncList (unsyncedfolders options) (unsynced_file env)))]
                 else [])
              @ [NewSyncEngine (source_dir options) (target_url options) folder,
                 StartSync, CsyncDestroy],
            Some (engine env
                    (if fst (read_selectiveSyncList (unsyncedfolders options) (unsynced_file env)) \<noteq> []
                     then selectiveSyncFixup j
                            (fst (read_selectiveSyncList (unsyncedfolders options) (unsynced_file env)))
                     else j))))"
  by (simp add: run_pass_def context_events_def Let_def split: prod.splits)

lemma run_pass_fatal:
  assumes "snd (run_pass options remUrl folder env j) = None"
  shows "fst (run_pass options remUrl folder env j)
         = context_events options remUrl env @ [FatalCannotLoadExcludeList]"
  using assms run_pass_unfold [of options remUrl folder env j] by simp

lemma run_pass_ok:
  assumes "snd (run_pass options remUrl folder env j) \<noteq> None"
  shows "fst (run_pass options remUrl folder env j)
         = context_events options remUrl env @ [NewSyncJournalDb (source_dir options)]
            @ (if fst (read_selectiveSyncList (unsyncedfolders options) (unsynced_file env)) \<noteq> []
               then [SelectiveSyncFixup
                       (fst (read_selectiveSyncList (unsyncedfolders options) (unsynced_file env)))]
               else [])
            @ [NewSyncEngine (source_dir options) (target_url options) folder,
               StartSync, CsyncDestroy]"
    and "snd (run_pass options remUrl folder env j)
         = Some (engine env
                  (if fst (read_selectiveSyncList (unsyncedfolders options) (unsynced_file env)) \<noteq> []
                   then selectiveSyncFixup j
                          (fst (read_selectiveSyncList (unsyncedfolders options) (unsynced_file env)))
                   else j))"
  using assms run_pass_unfold [of options remUrl folder env j] by (simp_all split: if_splits)

lemma context_events_kinds:
  assumes "e \<in> set (context_events options remUrl env)"
  shows "e = CsyncCreate (source_dir options) remUrl
         \<or> e = CsyncSetLogLevel (if silent options then 1 else 11)
         \<or> e = CsyncInit
         \<or> e = SetIgnoreHiddenFiles (ignoreHiddenFiles options)
         \<or> e \<in> set (setup_proxy (proxy options))
         \<or> e = CsyncAddExcludeList (excludeFileFromSystem env)
         \<or> e = CsyncAddExcludeList (exclude options)
         \<or> e = OpenUnsyncedFolders (unsyncedfolders options)
         \<or> e = CriticalCouldNotOpen (unsyncedfolders options)"
  using assms
  by (auto simp add: context_events_def load_exclude_list_def read_selectiveSyncList_def
      split: if_splits option.splits)

lemma setup_proxy_kinds:
  assumes "e \<in> set (setup_proxy p)"
  shows "e = SetUseSystemConfiguration False \<or> (\<exists>h n. e = SetApplicationProxy h n)
         \<or> e = SetupQtProxyFromConfig"
  using assms by (auto simp add: setup_proxy_def Let_def split: option.splits if_splits)

lemma context_events_inside:
  assumes "e \<in> set (context_events options remUrl env)"
  shows "\<not> outside_pass e" and "e \<noteq> StartSync" and "e \<noteq> FatalCannotLoadExcludeList"
    and "e \<noteq> NewSyncJournalDb d" and "e \<noteq> SelectiveSyncFixup l" and "e \<noteq> CsyncDestroy"
  using context_events_kinds [OF assms] setup_proxy_kinds [of e "proxy options"] by auto

lemma count_context_events:
  "count_list (context_events options remUrl env) StartSync = 0"
  "count_list (context_events options remUrl env) FatalCannotLoadExcludeList = 0"
  "count_list (context_events options remUrl env) (NewSyncJournalDb d) = 0"
  "count_list (context_events options remUrl env) (SelectiveSyncFixup l) = 0"
  unfolding count_list_0_iff
  by (blast dest: context_events_inside)+

lemma count_context_events_CsyncCreate:
  "count_list (context_events options remUrl env) (CsyncCreate (source_dir options) remUrl) = 1"
proof -
  have "CsyncCreate (source_dir options) remUrl \<notin> set (setup_proxy (proxy options))"
    using setup_proxy_kinds [of "CsyncCreate (source_dir options) remUrl" "proxy options"] by auto
  then show ?thesis
    by (auto simp add: context_events_def load_exclude_list_def read_selectiveSyncList_def
        split: option.splits)
qed

lemma run_pass_inside:
  assumes "e \<in> set (fst (run_pass options remUrl folder env j))"
  shows "\<not> outside_pass e"
proof (cases "snd (run_pass options remUrl folder env j) = None")
  case True
  with assms context_events_inside(1) [of e options remUrl env] show ?thesis
    by (auto simp add: run_pass_fatal)
next
  case False
  with assms context_events_inside(1) [of e options remUrl env] show ?thesis
    by (auto simp add: run_pass_ok(1) split: if_splits)
qed

lemma run_pass_observes:
  assumes "e \<in> set (fst (run_pass options remUrl folder env j))"
  shows "(\<forall>d u. e = CsyncCreate d u \<longrightarrow> d = source_dir options \<and> u = remUrl)
         \<and> (\<forall>d. e = NewSyncJournalDb d \<longrightarrow> d = source_dir options)"
proof -
  have c: "(\<forall>d u. e = CsyncCreate d u \<longrightarrow> d = source_dir options \<and> u = remUrl)
           \<and> (\<forall>d. e \<noteq> NewSyncJournalDb d)"
    if "e \<in> set (context_events options remUrl env)"
    using context_events_kinds [OF that] setup_proxy_kinds [of e "proxy options"] by auto
  show ?thesis
  proof (cases "snd (run_pass options remUrl folder env j) = None")
    case True
    with assms c show ?thesis by (auto simp add: run_pass_fatal)
  next
    case False
    with assms c show ?thesis by (auto simp add: run_pass_ok(1) split: if_splits)
  qed
qed

lemma run_pass_count_StartSync:
  "count_list (fst (run_pass options remUrl folder env j)) StartSync
   = (if snd (run_pass options remUrl folder env j) = None then 0 else 1)"
  by (simp add: run_pass_fatal run_pass_ok(1) count_context_events)

lemma run_pass_count_Fatal:
  "count_list (fst (run_pass options remUrl folder env j)) FatalCannotLoadExcludeList
   = (if snd (run_pass options remUrl folder env j) = None then 1 else 0)"
  by (simp add: run_pass_fatal run_pass_ok(1) count_context_events)

lemma run_pass_count_NewSyncJournalDb:
  "count_list (fst (run_pass options remUrl folder env j)) (NewSyncJournalDb (source_dir options))
   = (if snd (run_pass options remUrl folder env j) = None then 0 else 1)"
  by (simp add: run_pass_fatal run_pass_ok(1) count_context_events)

lemma run_pass_count_CsyncCreate:
  "count_list (fst (run_pass options remUrl folder env j)) (CsyncCreate (source_dir options) remUrl) = 1"
  by (cases "snd (run_pass options remUrl folder env j) = None")
    (simp_all add: run_pass_fatal run_pass_ok(1) count_context_events_CsyncCreate)

lemma run_pass_count_SelectiveSyncFixup:
  assumes "fst (read_selectiveSyncList (unsyncedfolders options) (unsynced_file env)) = l"
    and "l \<noteq> []"
  shows "count_list (fst (run_pass options remUrl folder env j)) (SelectiveSyncFixup l)
         = (if snd (run_pass options remUrl folder env j) = None then 0 else 1)"
  using assms by (simp add: run_pass_fatal run_pass_ok(1) count_context_events)

text \<open>The four ways one round of the loop goes (lines 480-489).\<close>

lemma sync_loop_fatal:
  assumes "snd (run_pass options remUrl folder (envs (nat k)) j) = None"
  shows "sync_loop options remUrl folder envs k j
         = (fst (run_pass options remUrl folder (envs (nat k)) j), FatalExcludeList, j)"
  using assms
  by (subst sync_loop.simps) (cases "run_pass options remUrl folder (envs (nat k)) j", simp)

lemma sync_loop_finished:
  assumes "snd (run_pass options remUrl folder (envs (nat k)) j) = Some (j', False)"
  shows "sync_loop options remUrl folder envs k j
         = (fst (run_pass options remUrl folder (envs (nat k)) j), Returned 0, j')"
  using assms
  by (subst sync_loop.simps) (cases "run_pass options remUrl folder (envs (nat k)) j", simp)

lemma sync_loop_exceeded:
  assumes "snd (run_pass options remUrl folder (envs (nat k)) j) = Some (j', True)"
    and "\<not> k < restartTimes options"
  shows "sync_loop options remUrl folder envs k j
         = (fst (run_pass options remUrl folder (envs (nat k)) j) @ [WarningRestartCountExceeded k],
            Returned 0, j')"
  using assms
  by (subst sync_loop.simps) (cases "run_pass options remUrl folder (envs (nat k)) j", simp)

lemma sync_loop_restart:
  assumes "snd (run_pass options remUrl folder (envs (nat k)) j) = Some (j', True)"
    and "k < restartTimes options"
  shows "sync_loop options remUrl folder envs k j
         = (fst (run_pass options remUrl folder (envs (nat k)) j) @ [DebugRestartingSync (k + 1)]
              @ fst (sync_loop options remUrl folder envs (k + 1) j'),
            snd (sync_loop options remUrl folder envs (k + 1) j'))"
  using assms
  by (subst sync_loop.simps)
    (cases "run_pass options remUrl folder (envs (nat k)) j", simp add: case_prod_beta)

text \<open>
  A property of the events that holds of every pass, of the two log messages and of
  concatenations holds of the events of the loop.
\<close>

lemma sync_loop_events_induct:
  assumes pass: "\<And>n j. Q (fst (run_pass options remUrl folder (envs n) j))"
    and debug: "\<And>n. Q [DebugRestartingSync n]"
    and warning: "\<And>n. Q [WarningRestartCountExceeded n]"
    and append: "\<And>xs ys. Q xs \<Longrightarrow> Q ys \<Longrightarrow> Q (xs @ ys)"
  shows "Q (fst (sync_loop options remUrl folder envs k j))"
  using assms
proof (induction options remUrl folder envs k j rule: sync_loop.induct)
  case (1 options remUrl folder envs k j)
  let ?rp = "run_pass options remUrl folder (envs (nat k)) j"
  have p: "Q (fst ?rp)" by (rule "1.prems"(1))
  show ?case
  proof (cases "snd ?rp")
    case None
    then show ?thesis using p by (simp add: sync_loop_fatal)
  next
    case (Some r)
    obtain j' another where r: "r = (j', another)" by (cases r)
    show ?thesis
    proof (cases another)
      case False
      with Some r show ?thesis using p by (simp add: sync_loop_finished)
    next
      case True
      from Some r True have s: "snd ?rp = Some (j', True)" by simp
      show ?thesis
      proof (cases "k < restartTimes options")
        case False
        have "Q (fst ?rp @ [WarningRestartCountExceeded k])"
          by (rule "1.prems"(4) [OF p "1.prems"(3)])
        then show ?thesis
          using sync_loop_exceeded [of options remUrl folder envs k j j'] s False by simp
      next
        case less: True
        have "Q (fst (sync_loop options remUrl folder envs (k + 1) j'))"
        proof (rule "1.IH" [of "fst ?rp" "snd ?rp" "(j', True)" j' True])
          show "(fst ?rp, snd ?rp) = ?rp" by simp
          show "snd ?rp = Some (j', True)" by (rule s)
          show "(j', True) = (j', True)" by simp
          show True by simp
          show "k < restartTimes options" by (rule less)
        qed (rule "1.prems")+
        then have "Q ([DebugRestartingSync (k + 1)] @ fst (sync_loop options remUrl folder envs (k + 1) j'))"
          by (rule "1.prems"(4) [OF "1.prems"(2)])
        then have "Q (fst ?rp @ [DebugRestartingSync (k + 1)]
                       @ fst (sync_loop options remUrl folder envs (k + 1) j'))"
          by (rule "1.prems"(4) [OF p])
        then show ?thesis
          using sync_loop_restart [of options remUrl folder envs k j j'] s less by simp
      qed
    qed
  qed
qed

subsection \<open>The retry bound\<close>

lemma run_pass_another:
  assumes "\<And>j. snd (engine env j)" and "snd (run_pass options remUrl folder env j) \<noteq> None"
  shows "\<exists>j'. snd (run_pass options remUrl folder env j) = Some (j', True)"
proof -
  let ?l = "fst (read_selectiveSyncList (unsyncedfolders options) (unsynced_file env))"
  let ?j1 = "if ?l \<noteq> [] then selectiveSyncFixup j ?l else j"
  have "snd (run_pass options remUrl folder env j) = Some (engine env ?j1)"
    by (rule run_pass_ok(2) [OF assms(2)])
  moreover have "engine env ?j1 = (fst (engine env ?j1), True)"
    using assms(1) [of ?j1] by (cases "engine env ?j1") simp
  ultimately show ?thesis by metis
qed

text \<open>
  An engine that asks for another sync after every pass, with no pass fatal: from a
  counter k that has not passed the bound, the loop runs one pass per value of the counter
  from k to the bound, then logs the warning and returns 0.
\<close>

lemma sync_loop_always_another:
  assumes "\<And>n j. snd (engine (envs n) j)"
    and "\<And>n j. snd (run_pass options remUrl folder (envs n) j) \<noteq> None"
    and "k \<le> restartTimes options"
  shows "count_list (fst (sync_loop options remUrl folder envs k j)) StartSync
           = nat (restartTimes options - k) + 1
         \<and> fst (sync_loop options remUrl folder envs k j) \<noteq> []
         \<and> last (fst (sync_loop options remUrl folder envs k j))
             = WarningRestartCountExceeded (restartTimes options)
         \<and> count_list (fst (sync_loop options remUrl folder envs k j))
               (WarningRestartCountExceeded (restartTimes options)) = 1
         \<and> fst (snd (sync_loop options remUrl folder envs k j)) = Returned 0"
  using assms(3)
proof (induction "nat (restartTimes options - k)" arbitrary: k j)
  case 0
  let ?rp = "run_pass options remUrl folder (envs (nat k)) j"
  from 0 have k: "k = restartTimes options" by simp
  obtain j' where s: "snd ?rp = Some (j', True)"
    using run_pass_another [of "envs (nat k)" options remUrl folder j] assms(1,2) by blast
  have "sync_loop options remUrl folder envs k j
        = (fst ?rp @ [WarningRestartCountExceeded k], Returned 0, j')"
    using sync_loop_exceeded [of options remUrl folder envs k j j'] s k by simp
  moreover have "count_list (fst ?rp) StartSync = 1"
    using s by (simp add: run_pass_count_StartSync)
  moreover have "count_list (fst ?rp) (WarningRestartCountExceeded k) = 0"
    using run_pass_inside [of "WarningRestartCountExceeded k" options remUrl folder "envs (nat k)" j]
    by (auto simp add: count_list_0_iff)
  ultimately show ?case using k by simp
next
  case (Suc m)
  let ?rp = "run_pass options remUrl folder (envs (nat k)) j"
  from Suc have less: "k < restartTimes options" by simp
  obtain j' where s: "snd ?rp = Some (j', True)"
    using run_pass_another [of "envs (nat k)" options remUrl folder j] assms(1,2) by blast
  let ?rest = "sync_loop options remUrl folder envs (k + 1) j'"
  have u: "sync_loop options remUrl folder envs k j
        = (fst ?rp @ [DebugRestartingSync (k + 1)] @ fst ?rest, snd ?rest)"
    using sync_loop_restart [of options remUrl folder envs k j j'] s less by simp
  have c: "count_list (fst ?rp) StartSync = 1"
    using s by (simp add: run_pass_count_StartSync)
  have m: "m = nat (restartTimes options - (k + 1))"
    using Suc(2) by simp
  have ih: "count_list (fst ?rest) StartSync = nat (restartTimes options - (k + 1)) + 1
         \<and> fst ?rest \<noteq> []
         \<and> last (fst ?rest) = WarningRestartCountExceeded (restartTimes options)
         \<and> count_list (fst ?rest) (WarningRestartCountExceeded (restartTimes options)) = 1
         \<and> fst (snd ?rest) = Returned 0"
    using Suc(1) [OF m] less by simp
  have w: "count_list (fst ?rp) (WarningRestartCountExceeded (restartTimes options)) = 0"
    using run_pass_inside [of "WarningRestartCountExceeded (restartTimes options)" options remUrl folder
        "envs (nat k)" j]
    by (auto simp add: count_list_0_iff)
  have n: "nat (restartTimes options - k) = nat (restartTimes options - (k + 1)) + 1"
    using less by simp
  show ?case
    using ih c w by (simp add: u n)
qed

subsection \<open>The options seen by the passes\<close>

lemma main_started:
  assumes "parseOptions (file_exists menv) args initial_options = Inr parsed"
    and "account_created menv"
  shows "fst (main menv envs args j)
         = NewHttpCredentialsText
             (fst (resolved menv (options_after_rewrite menv parsed)))
             (snd (resolved menv (options_after_rewrite menv parsed)))
           # account_url menv (options_after_rewrite menv parsed)
               (resolved menv (options_after_rewrite menv parsed))
           # fst (sync_loop (options_after_rewrite menv parsed)
                   (target_url (options_after_rewrite menv parsed))
                   (sync_folder menv (options_after_rewrite menv parsed)) envs 0 j)"
    and "snd (main menv envs args j)
         = snd (sync_loop (options_after_rewrite menv parsed)
                  (target_url (options_after_rewrite menv parsed))
                  (sync_folder menv (options_after_rewrite menv parsed)) envs 0 j)"
  using assms by (simp_all add: main_def Let_def case_prod_beta)

lemma context_events_no_engine:
  assumes "e \<in> set (context_events options remUrl env)"
  shows "e \<noteq> NewSyncEngine d u f"
  using context_events_kinds [OF assms] setup_proxy_kinds [of e "proxy options"] by auto

lemma run_pass_observes_engine:
  assumes "e \<in> set (fst (run_pass options remUrl folder env j))"
    and "e = NewSyncEngine d u f"
  shows "d = source_dir options \<and> u = target_url options \<and> f = folder"
proof (cases "snd (run_pass options remUrl folder env j) = None")
  case True
  with assms context_events_no_engine [of e options remUrl env d u f] show ?thesis
    by (auto simp add: run_pass_fatal)
next
  case False
  with assms context_events_no_engine [of e options remUrl env d u f] show ?thesis
    by (auto simp add: run_pass_ok(1) split: if_splits)
qed

lemma sync_loop_observes:
  "\<forall>e \<in> set (fst (sync_loop options remUrl folder envs k j)).
     (\<forall>d u. e = CsyncCreate d u \<longrightarrow> d = source_dir options \<and> u = remUrl)
     \<and> (\<forall>d. e = NewSyncJournalDb d \<longrightarrow> d = source_dir options)
     \<and> (\<forall>d u f. e = NewSyncEngine d u f \<longrightarrow>
           d = source_dir options \<and> u = target_url options \<and> f = folder)
     \<and> (\<forall>sc us pw h pa. e \<noteq> AccountSetUrl sc us pw h pa)"
proof (rule sync_loop_events_induct)
  fix n j
  show "\<forall>e \<in> set (fst (run_pass options remUrl folder (envs n) j)).
     (\<forall>d u. e = CsyncCreate d u \<longrightarrow> d = source_dir options \<and> u = remUrl)
     \<and> (\<forall>d. e = NewSyncJournalDb d \<longrightarrow> d = source_dir options)
     \<and> (\<forall>d u f. e = NewSyncEngine d u f \<longrightarrow>
           d = source_dir options \<and> u = target_url options \<and> f = folder)
     \<and> (\<forall>sc us pw h pa. e \<noteq> AccountSetUrl sc us pw h pa)"
  proof
    fix e
    assume e: "e \<in> set (fst (run_pass options remUrl folder (envs n) j))"
    have "\<not> outside_pass e" by (rule run_pass_inside [OF e])
    then have "\<forall>sc us pw h pa. e \<noteq> AccountSetUrl sc us pw h pa" by auto
    with run_pass_observes [OF e] run_pass_observes_engine [OF e]
    show "(\<forall>d u. e = CsyncCreate d u \<longrightarrow> d = source_dir options \<and> u = remUrl)
     \<and> (\<forall>d. e = NewSyncJournalDb d \<longrightarrow> d = source_dir options)
     \<and> (\<forall>d u f. e = NewSyncEngine d u f \<longrightarrow>
           d = source_dir options \<and> u = target_url options \<and> f = folder)
     \<and> (\<forall>sc us pw h pa. e \<noteq> AccountSetUrl sc us pw h pa)"
      by blast
  qed
qed auto

lemma run_pass_count_NewSyncEngine:
  "count_list (fst (run_pass options remUrl folder env j))
     (NewSyncEngine (source_dir options) (target_url options) folder)
   = (if snd (run_pass options remUrl folder env j) = None then 0 else 1)"
proof -
  have "count_list (context_events options remUrl env)
          (NewSyncEngine (source_dir options) (target_url options) folder) = 0"
    unfolding count_list_0_iff by (blast dest: context_events_no_engine)
  then show ?thesis
    by (simp add: run_pass_fatal run_pass_ok(1))
qed

lemma sync_loop_count_engines:
  "count_list (fst (sync_loop options remUrl folder envs k j))
     (NewSyncEngine (source_dir options) (target_url options) folder)
   = count_list (fst (sync_loop options remUrl folder envs k j)) StartSync"
  by (rule sync_loop_events_induct)
    (simp_all add: run_pass_count_NewSyncEngine run_pass_count_StartSync)

text \<open>
  C7. After \<^verbatim>\<open>parseOptions\<close>, \<^verbatim>\<open>main\<close> assigns one field of the options, the target URL,
  which gets its trailing "/", the dav path and the scheme "owncloud" (lines 296-312);
  every other field stays as parsed. Every csync context of the run is created with the
  source directory as parsed and with this rewritten URL, every journal object with the
  source directory as parsed, and every engine with the source directory as parsed, the
  rewritten URL (of which it takes the path) and the folder that follows the dav path.
  The account is given its URL once, before the loop: the parts of the rewritten URL
  with "owncloud" in the scheme replaced by "http", the resolved user and password
  filled in where the URL has none, and the path cut before the dav path.
\<close>

theorem options_observed:
  assumes "parseOptions (file_exists menv) args initial_options = Inr parsed"
    and "account_created menv"
  shows "(options_after_rewrite menv parsed)\<lparr>target_url := target_url parsed\<rparr> = parsed
     \<and> target_url (options_after_rewrite menv parsed)
         = rewrite_target_url (account_davPath menv (nonShib parsed) (davPath parsed))
             (target_url parsed)
     \<and> fst (main menv envs args j) ! 1
         = AccountSetUrl
             (replace_all ''owncloud'' ''http''
                (url_scheme menv (target_url (options_after_rewrite menv parsed))))
             (if url_userName menv (target_url (options_after_rewrite menv parsed)) = []
              then fst (resolved menv (options_after_rewrite menv parsed))
              else url_userName menv (target_url (options_after_rewrite menv parsed)))
             (if url_password menv (target_url (options_after_rewrite menv parsed)) = []
              then snd (resolved menv (options_after_rewrite menv parsed))
              else url_password menv (target_url (options_after_rewrite menv parsed)))
             (url_host menv (target_url (options_after_rewrite menv parsed)))
             (value_at (split_str (account_davPath menv (nonShib parsed) (davPath parsed))
                          (url_path menv (target_url (options_after_rewrite menv parsed)))) 0)
     \<and> (\<forall>e \<in> set (fst (main menv envs args j)).
           (\<forall>d u. e = CsyncCreate d u \<longrightarrow>
              d = source_dir parsed \<and> u = target_url (options_after_rewrite menv parsed))
           \<and> (\<forall>d. e = NewSyncJournalDb d \<longrightarrow> d = source_dir parsed)
           \<and> (\<forall>d u f. e = NewSyncEngine d u f \<longrightarrow>
                 d = source_dir parsed \<and> u = target_url (options_after_rewrite menv parsed)
                 \<and> f = value_at (split_str (account_davPath menv (nonShib parsed) (davPath parsed))
                          (url_path menv (target_url (options_after_rewrite menv parsed)))) 1)
           \<and> (\<forall>sc us pw h pa. e = AccountSetUrl sc us pw h pa \<longrightarrow>
                 e = fst (main menv envs args j) ! 1))"
proof -
  let ?options = "options_after_rewrite menv parsed"
  let ?dav = "account_davPath menv (nonShib parsed) (davPath parsed)"
  let ?folder = "sync_folder menv ?options"
  let ?loop = "fst (sync_loop ?options (target_url ?options) ?folder envs 0 j)"
  let ?cred = "NewHttpCredentialsText (fst (resolved menv ?options)) (snd (resolved menv ?options))"
  let ?acc = "account_url menv ?options (resolved menv ?options)"
  have o: "source_dir ?options = source_dir parsed" "nonShib ?options = nonShib parsed"
    "davPath ?options = davPath parsed"
    by (simp_all add: options_after_rewrite_def)
  have t: "target_url ?options = rewrite_target_url ?dav (target_url parsed)"
    by (simp add: options_after_rewrite_def)
  have f: "?folder = value_at (split_str ?dav (url_path menv (target_url ?options))) 1"
    by (simp add: sync_folder_def o)
  have m: "fst (main menv envs args j) = ?cred # ?acc # ?loop"
    by (rule main_started(1) [OF assms])
  have a: "?acc = AccountSetUrl
             (replace_all ''owncloud'' ''http'' (url_scheme menv (target_url ?options)))
             (if url_userName menv (target_url ?options) = []
              then fst (resolved menv ?options) else url_userName menv (target_url ?options))
             (if url_password menv (target_url ?options) = []
              then snd (resolved menv ?options) else url_password menv (target_url ?options))
             (url_host menv (target_url ?options))
             (value_at (split_str ?dav (url_path menv (target_url ?options))) 0)"
    by (simp add: account_url_def Let_def o)
  have c1: "?options\<lparr>target_url := target_url parsed\<rparr> = parsed"
    by (simp add: options_after_rewrite_def)
  have c3: "fst (main menv envs args j) ! 1 = ?acc"
    unfolding m by simp
  have c4: "(\<forall>d u. e = CsyncCreate d u \<longrightarrow>
              d = source_dir parsed \<and> u = target_url ?options)
           \<and> (\<forall>d. e = NewSyncJournalDb d \<longrightarrow> d = source_dir parsed)
           \<and> (\<forall>d u f. e = NewSyncEngine d u f \<longrightarrow>
                 d = source_dir parsed \<and> u = target_url ?options
                 \<and> f = value_at (split_str ?dav (url_path menv (target_url ?options))) 1)
           \<and> (\<forall>sc us pw h pa. e = AccountSetUrl sc us pw h pa \<longrightarrow>
                 e = fst (main menv envs args j) ! 1)"
    if "e \<in> set (fst (main menv envs args j))" for e
  proof -
    from that consider "e = ?cred" | "e = ?acc" | "e \<in> set ?loop"
      unfolding m by auto
    then show ?thesis
    proof cases
      case 1
      then show ?thesis by simp
    next
      case 2
      from 2 have k: "e = AccountSetUrl
             (replace_all ''owncloud'' ''http'' (url_scheme menv (target_url ?options)))
             (if url_userName menv (target_url ?options) = []
              then fst (resolved menv ?options) else url_userName menv (target_url ?options))
             (if url_password menv (target_url ?options) = []
              then snd (resolved menv ?options) else url_password menv (target_url ?options))
             (url_host menv (target_url ?options))
             (value_at (split_str ?dav (url_path menv (target_url ?options))) 0)"
        unfolding a .
      have n1: "e \<noteq> CsyncCreate d u" for d u unfolding k by (rule event.distinct)
      have n2: "e \<noteq> NewSyncJournalDb d" for d unfolding k by (rule event.distinct)
      have n3: "e \<noteq> NewSyncEngine d u f" for d u f unfolding k by (rule event.distinct)
      have n4: "e = fst (main menv envs args j) ! 1" unfolding c3 by (rule 2)
      from n1 n2 n3 n4 show ?thesis by blast
    next
      case 3
      from sync_loop_observes [of ?options "target_url ?options" ?folder envs 0 j] 3
      have p: "(\<forall>d u. e = CsyncCreate d u \<longrightarrow>
                  d = source_dir ?options \<and> u = target_url ?options)
           \<and> (\<forall>d. e = NewSyncJournalDb d \<longrightarrow> d = source_dir ?options)
           \<and> (\<forall>d u f. e = NewSyncEngine d u f \<longrightarrow>
                 d = source_dir ?options \<and> u = target_url ?options \<and> f = ?folder)
           \<and> (\<forall>sc us pw h pa. e \<noteq> AccountSetUrl sc us pw h pa)"
        by (rule bspec)
      have n1: "d = source_dir parsed \<and> u = target_url ?options"
        if "e = CsyncCreate d u" for d u
        using p that o(1) by metis
      have n2: "d = source_dir parsed" if "e = NewSyncJournalDb d" for d
        using p that o(1) by metis
      have n3: "d = source_dir parsed \<and> u = target_url ?options
                 \<and> f = value_at (split_str ?dav (url_path menv (target_url ?options))) 1"
        if "e = NewSyncEngine d u f" for d u f
        using p that o(1) f by metis
      have n4: "e \<noteq> AccountSetUrl sc us pw h pa" for sc us pw h pa
        using p by metis
      from n1 n2 n3 n4 show ?thesis by blast
    qed
  qed
  then have c4': "\<forall>e \<in> set (fst (main menv envs args j)).
           (\<forall>d u. e = CsyncCreate d u \<longrightarrow>
              d = source_dir parsed \<and> u = target_url ?options)
           \<and> (\<forall>d. e = NewSyncJournalDb d \<longrightarrow> d = source_dir parsed)
           \<and> (\<forall>d u f. e = NewSyncEngine d u f \<longrightarrow>
                 d = source_dir parsed \<and> u = target_url ?options
                 \<and> f = value_at (split_str ?dav (url_path menv (target_url ?options))) 1)
           \<and> (\<forall>sc us pw h pa. e = AccountSetUrl sc us pw h pa \<longrightarrow>
                 e = fst (main menv envs args j) ! 1)"
    by (rule ballI)
  show ?thesis
    by (rule conjI [OF c1 conjI [OF t conjI [OF c3 [unfolded a] c4']]])
qed

subsection \<open>The example run, evaluated\<close>

lemma example_parse:
  "parseOptions (file_exists example_main_env) example_args initial_options = Inr example_parsed"
  by (simp add: parseOptions_def example_main_env_def example_args_def example_parsed_def
      endsWith_def startsWith_def Let_def)

lemma example_rewrite:
  "rewrite_target_url ''remote.php/webdav/'' ''http://example.com'' = example_url"
  by (simp add: rewrite_target_url_def endsWith_def startsWith_def example_url_def Let_def)

lemma example_options:
  "options_after_rewrite example_main_env example_parsed
   = example_parsed\<lparr>target_url := example_url\<rparr>"
  by (simp add: options_after_rewrite_def example_main_env_def example_parsed_def
      initial_options_def example_rewrite)

lemma example_resolved:
  "resolved example_main_env (example_parsed\<lparr>target_url := example_url\<rparr>) = (''alice'', ''pw'')"
  by (simp add: resolved_def resolve_credentials_def credentials_from_prompt_def
      credentials_from_netrc_def credentials_from_url_and_options_def getline_def
      initial_options_def example_main_env_def example_parsed_def)

lemma example_split_path:
  "split_str ''remote.php/webdav/'' ''/remote.php/webdav/'' = [''/'', []]"
  by (simp add: split_str.simps startsWith_def)

lemma example_scheme: "replace_all ''owncloud'' ''http'' ''owncloud'' = ''http''"
  by (simp add: replace_all.simps startsWith_def)

lemma example_account_url:
  "account_url example_main_env (example_parsed\<lparr>target_url := example_url\<rparr>) (''alice'', ''pw'')
   = AccountSetUrl ''http'' ''alice'' ''pw'' ''example.com'' ''/''"
  by (simp add: account_url_def example_main_env_def example_split_path example_scheme
      value_at_def)

lemma example_folder:
  "sync_folder example_main_env (example_parsed\<lparr>target_url := example_url\<rparr>) = []"
  by (simp add: sync_folder_def example_main_env_def example_split_path value_at_def)

lemma example_list: "read_selectiveSyncList ''list.txt'' (Some ''a'')
                     = ([''a/''], [OpenUnsyncedFolders ''list.txt''])"
  by (simp add: read_selectiveSyncList_def matches_nonspace_def matches_leading_non_hash_def
      isSpace_def append_slash_def endsWith_def)

lemma example_pass:
  "run_pass (example_parsed\<lparr>target_url := example_url\<rparr>) example_url []
     (example_envs_lists r n) j
   = (example_pass_events,
      Some ((selectiveSyncFixup j [''a/''])\<lparr>db_exists := True\<rparr>, n < r))"
  by (simp add: run_pass_def example_parsed_def initial_options_def example_envs_lists_def
      example_url_def example_pass_events_def setup_proxy_def load_exclude_list_def
      exclude_lists_fatal_def example_list)

lemma example_fixup_first:
  "(selectiveSyncFixup example_journal [''a/''])\<lparr>db_exists := True\<rparr>
   = \<lparr>db_exists = True, db_openable = True, blacklist = [], avoid_read = {}, avoid_calls = 0\<rparr>"
  by (simp add: selectiveSyncFixup_def example_journal_def)

lemma example_fixup_second:
  "(selectiveSyncFixup
      \<lparr>db_exists = True, db_openable = True, blacklist = [], avoid_read = {}, avoid_calls = 0\<rparr>
      [''a/''])\<lparr>db_exists := True\<rparr>
   = \<lparr>db_exists = True, db_openable = True, blacklist = [''a/''], avoid_read = {''a/''},
      avoid_calls = 1\<rparr>"
  by (simp add: selectiveSyncFixup_def setSelectiveSyncList_def
      avoidReadFromDbOnNextSync_each_def changes_def Let_def)

lemma example_loop:
  "sync_loop (example_parsed\<lparr>target_url := example_url\<rparr>) example_url []
     (example_envs_lists 1) 0 example_journal
   = (example_pass_events @ [DebugRestartingSync 1] @ example_pass_events,
      Returned 0,
      \<lparr>db_exists = True, db_openable = True, blacklist = [''a/''], avoid_read = {''a/''},
       avoid_calls = 1\<rparr>)"
proof -
  let ?options = "example_parsed\<lparr>target_url := example_url\<rparr>"
  let ?j1 = "\<lparr>db_exists = True, db_openable = True, blacklist = [], avoid_read = {},
              avoid_calls = 0\<rparr>"
  let ?j2 = "\<lparr>db_exists = True, db_openable = True, blacklist = [''a/''],
              avoid_read = {''a/''}, avoid_calls = 1\<rparr>"
  have r: "restartTimes ?options = 3" by (simp add: example_parsed_def initial_options_def)
  have p0: "snd (run_pass ?options example_url [] (example_envs_lists 1 (nat 0)) example_journal)
            = Some (?j1, True)"
    by (simp add: example_pass example_fixup_first)
  have p1: "snd (run_pass ?options example_url [] (example_envs_lists 1 (nat 1)) ?j1)
            = Some (?j2, False)"
    by (simp add: example_pass example_fixup_second)
  have second: "sync_loop ?options example_url [] (example_envs_lists 1) 1 ?j1
        = (fst (run_pass ?options example_url [] (example_envs_lists 1 (nat 1)) ?j1),
           Returned 0, ?j2)"
    using sync_loop_finished [of ?options example_url "[]" "example_envs_lists 1" 1 ?j1 ?j2] p1
    by blast
  have first: "sync_loop ?options example_url [] (example_envs_lists 1) 0 example_journal
        = (fst (run_pass ?options example_url [] (example_envs_lists 1 (nat 0)) example_journal)
             @ [DebugRestartingSync 1]
             @ fst (sync_loop ?options example_url [] (example_envs_lists 1) 1 ?j1),
           snd (sync_loop ?options example_url [] (example_envs_lists 1) 1 ?j1))"
    using sync_loop_restart [of ?options example_url "[]" "example_envs_lists 1" 0
        example_journal ?j1] p0 r
    by simp
  show ?thesis
    unfolding first second by (simp add: example_pass)
qed

lemma example_main:
  "main example_main_env (example_envs_lists 1) example_args example_journal
   = (NewHttpCredentialsText ''alice'' ''pw''
        # AccountSetUrl ''http'' ''alice'' ''pw'' ''example.com'' ''/''
        # example_pass_events @ [DebugRestartingSync 1] @ example_pass_events,
      Returned 0,
      \<lparr>db_exists = True, db_openable = True, blacklist = [''a/''], avoid_read = {''a/''},
       avoid_calls = 1\<rparr>)"
proof -
  have a: "account_created example_main_env" by (simp add: example_main_env_def)
  have t: "target_url (example_parsed\<lparr>target_url := example_url\<rparr>) = example_url"
    by simp
  show ?thesis
    using main_started [OF example_parse a, of "example_envs_lists 1" example_journal]
    unfolding example_options t example_resolved example_account_url example_folder example_loop
    by (simp add: prod_eq_iff)
qed

theorem options_observed_witness:
  "parseOptions (file_exists example_main_env) example_args initial_options = Inr example_parsed
   \<and> account_created example_main_env
   \<and> source_dir example_parsed = ''/tmp/sync/''
   \<and> target_url (options_after_rewrite example_main_env example_parsed)
       = ''owncloud://example.com/remote.php/webdav/''
   \<and> fst (main example_main_env (example_envs_lists 1) example_args example_journal) ! 1
       = AccountSetUrl ''http'' ''alice'' ''pw'' ''example.com'' ''/''
   \<and> CsyncCreate ''/tmp/sync/'' ''owncloud://example.com/remote.php/webdav/''
       \<in> set (fst (main example_main_env (example_envs_lists 1) example_args example_journal))
   \<and> NewSyncEngine ''/tmp/sync/'' ''owncloud://example.com/remote.php/webdav/'' []
       \<in> set (fst (main example_main_env (example_envs_lists 1) example_args example_journal))"
proof -
  let ?trace = "fst (main example_main_env (example_envs_lists 1) example_args example_journal)"
  let ?options = "example_parsed\<lparr>target_url := example_url\<rparr>"
  have a: "account_created example_main_env" by (simp add: example_main_env_def)
  note t = options_observed [OF example_parse a, of "example_envs_lists 1" example_journal]
  have u: "url_scheme example_main_env x = ''owncloud''" "url_userName example_main_env x = []"
    "url_password example_main_env x = []" "url_host example_main_env x = ''example.com''"
    "url_path example_main_env x = ''/remote.php/webdav/''"
    "account_davPath example_main_env b y = ''remote.php/webdav/''" for x b y
    by (simp_all add: example_main_env_def)
  from t have "?trace ! 1
         = AccountSetUrl
             (replace_all ''owncloud'' ''http'' (url_scheme example_main_env (target_url ?options)))
             (if url_userName example_main_env (target_url ?options) = []
              then fst (resolved example_main_env ?options)
              else url_userName example_main_env (target_url ?options))
             (if url_password example_main_env (target_url ?options) = []
              then snd (resolved example_main_env ?options)
              else url_password example_main_env (target_url ?options))
             (url_host example_main_env (target_url ?options))
             (value_at (split_str (account_davPath example_main_env (nonShib example_parsed)
                                     (davPath example_parsed))
                          (url_path example_main_env (target_url ?options))) 0)"
    unfolding example_options by (rule conjunct1 [OF conjunct2 [OF conjunct2]])
  then have c: "?trace ! 1 = AccountSetUrl ''http'' ''alice'' ''pw'' ''example.com'' ''/''"
    unfolding u example_resolved example_scheme example_split_path
    by (simp add: value_at_def)
  have s: "source_dir example_parsed = ''/tmp/sync/''" by (simp add: example_parsed_def)
  have o: "target_url (options_after_rewrite example_main_env example_parsed)
           = ''owncloud://example.com/remote.php/webdav/''"
    unfolding example_options by (simp add: example_url_def)
  have m: "CsyncCreate ''/tmp/sync/'' ''owncloud://example.com/remote.php/webdav/'' \<in> set ?trace"
    "NewSyncEngine ''/tmp/sync/'' ''owncloud://example.com/remote.php/webdav/'' [] \<in> set ?trace"
    unfolding example_main by (simp_all add: example_pass_events_def)
  show ?thesis
    by (rule conjI [OF example_parse conjI [OF a conjI [OF s conjI [OF o conjI [OF c
        conjI [OF m]]]]]])
qed

theorem options_mutated_counterexample:
  "parseOptions (file_exists example_main_env) example_args initial_options = Inr example_parsed
   \<and> target_url example_parsed = ''http://example.com''
   \<and> fst (main example_main_env (example_envs_lists 1) example_args example_journal) ! 2
       = CsyncCreate ''/tmp/sync/'' ''owncloud://example.com/remote.php/webdav/''
   \<and> target_url (options_after_rewrite example_main_env example_parsed)
       \<noteq> target_url example_parsed"
proof -
  have "target_url example_parsed = ''http://example.com''" by (simp add: example_parsed_def)
  moreover have "fst (main example_main_env (example_envs_lists 1) example_args example_journal) ! 2
       = CsyncCreate ''/tmp/sync/'' ''owncloud://example.com/remote.php/webdav/''"
    unfolding example_main by (simp add: example_pass_events_def)
  moreover have "target_url (options_after_rewrite example_main_env example_parsed)
       \<noteq> target_url example_parsed"
    unfolding example_options by (simp add: example_url_def example_parsed_def)
  ultimately show ?thesis using example_parse by blast
qed

subsection \<open>What a restart does again\<close>

lemma count_context_events_fixed:
  "count_list (context_events options remUrl env)
     (CsyncSetLogLevel (if silent options then 1 else 11)) = 1"
  "count_list (context_events options remUrl env)
     (SetIgnoreHiddenFiles (ignoreHiddenFiles options)) = 1"
proof -
  have "CsyncSetLogLevel n \<notin> set (setup_proxy (proxy options))"
    "SetIgnoreHiddenFiles b \<notin> set (setup_proxy (proxy options))" for n b
    using setup_proxy_kinds [of _ "proxy options"] by blast+
  then show "count_list (context_events options remUrl env)
     (CsyncSetLogLevel (if silent options then 1 else 11)) = 1"
    "count_list (context_events options remUrl env)
     (SetIgnoreHiddenFiles (ignoreHiddenFiles options)) = 1"
    by (auto simp add: context_events_def load_exclude_list_def read_selectiveSyncList_def
        split: option.splits)
qed

lemma run_pass_count_fixed:
  "count_list (fst (run_pass options remUrl folder env j))
     (CsyncSetLogLevel (if silent options then 1 else 11)) = 1"
  "count_list (fst (run_pass options remUrl folder env j))
     (SetIgnoreHiddenFiles (ignoreHiddenFiles options)) = 1"
  by (cases "snd (run_pass options remUrl folder env j) = None";
      simp add: run_pass_fatal run_pass_ok(1) count_context_events_fixed)+

lemma sync_loop_no_credentials:
  "NewHttpCredentialsText u p \<notin> set (fst (sync_loop options remUrl folder envs k j))"
proof (rule sync_loop_events_induct)
  fix n j
  show "NewHttpCredentialsText u p \<notin> set (fst (run_pass options remUrl folder (envs n) j))"
    using run_pass_inside [of "NewHttpCredentialsText u p" options remUrl folder "envs n" j] by auto
qed auto

lemma sync_loop_count_contexts:
  "count_list (fst (sync_loop options remUrl folder envs k j)) (CsyncCreate (source_dir options) remUrl)
   = count_list (fst (sync_loop options remUrl folder envs k j)) StartSync
     + count_list (fst (sync_loop options remUrl folder envs k j)) FatalCannotLoadExcludeList"
  by (rule sync_loop_events_induct)
    (simp_all add: run_pass_count_CsyncCreate run_pass_count_StartSync run_pass_count_Fatal)

lemma sync_loop_count_log_level:
  "count_list (fst (sync_loop options remUrl folder envs k j))
     (CsyncSetLogLevel (if silent options then 1 else 11))
   = count_list (fst (sync_loop options remUrl folder envs k j)) StartSync
     + count_list (fst (sync_loop options remUrl folder envs k j)) FatalCannotLoadExcludeList"
  by (rule sync_loop_events_induct)
    (simp_all add: run_pass_count_fixed run_pass_count_StartSync run_pass_count_Fatal)

lemma sync_loop_count_hidden_files:
  "count_list (fst (sync_loop options remUrl folder envs k j))
     (SetIgnoreHiddenFiles (ignoreHiddenFiles options))
   = count_list (fst (sync_loop options remUrl folder envs k j)) StartSync
     + count_list (fst (sync_loop options remUrl folder envs k j)) FatalCannotLoadExcludeList"
  by (rule sync_loop_events_induct)
    (simp_all add: run_pass_count_fixed run_pass_count_StartSync run_pass_count_Fatal)

lemma sync_loop_count_journals:
  "count_list (fst (sync_loop options remUrl folder envs k j)) (NewSyncJournalDb (source_dir options))
   = count_list (fst (sync_loop options remUrl folder envs k j)) StartSync"
  by (rule sync_loop_events_induct)
    (simp_all add: run_pass_count_NewSyncJournalDb run_pass_count_StartSync)

lemma sync_loop_count_fixups:
  assumes "\<And>n. fst (read_selectiveSyncList (unsyncedfolders options) (unsynced_file (envs n))) = l"
    and "l \<noteq> []"
  shows "count_list (fst (sync_loop options remUrl folder envs k j)) (SelectiveSyncFixup l)
         = count_list (fst (sync_loop options remUrl folder envs k j)) StartSync"
  by (rule sync_loop_events_induct)
    (simp_all add: run_pass_count_SelectiveSyncFixup [OF assms] run_pass_count_StartSync)

lemma run_pass_count_context:
  assumes "e \<noteq> FatalCannotLoadExcludeList" and "\<And>d. e \<noteq> NewSyncJournalDb d"
    and "\<And>l. e \<noteq> SelectiveSyncFixup l" and "\<And>d u f. e \<noteq> NewSyncEngine d u f"
    and "e \<noteq> StartSync" and "e \<noteq> CsyncDestroy"
  shows "count_list (fst (run_pass options remUrl folder env j)) e
         = count_list (context_events options remUrl env) e"
proof -
  have n: "e \<noteq> NewSyncJournalDb (source_dir options)"
    "e \<noteq> NewSyncEngine (source_dir options) (target_url options) folder"
    "e \<noteq> SelectiveSyncFixup
            (fst (read_selectiveSyncList (unsyncedfolders options) (unsynced_file env)))"
    by (rule assms)+
  show ?thesis
    using n assms(1,5,6)
    by (cases "snd (run_pass options remUrl folder env j) = None")
      (simp_all add: run_pass_fatal run_pass_ok(1))
qed

lemma count_context_proxy:
  assumes "e = SetUseSystemConfiguration b \<or> e = SetApplicationProxy h n
           \<or> e = SetupQtProxyFromConfig"
  shows "count_list (context_events options remUrl env) e
         = count_list (setup_proxy (proxy options)) e"
  using assms
  by (auto simp add: context_events_def load_exclude_list_def read_selectiveSyncList_def
      split: option.splits)

lemma count_context_exclude:
  "count_list (context_events options remUrl env) (CsyncAddExcludeList p)
   = (if excludeFileFromSystem env = p \<and> p \<noteq> [] then 1 else 0)
     + (if exclude options = p \<and> p \<noteq> [] then 1 else 0)"
proof -
  have "CsyncAddExcludeList p \<notin> set (setup_proxy (proxy options))"
    using setup_proxy_kinds [of "CsyncAddExcludeList p" "proxy options"] by auto
  then show ?thesis
    by (auto simp add: context_events_def load_exclude_list_def read_selectiveSyncList_def
        split: option.splits)
qed

lemma count_context_open:
  "count_list (context_events options remUrl env) (OpenUnsyncedFolders p)
   = (if unsyncedfolders options = p \<and> p \<noteq> [] then 1 else 0)"
proof -
  have "OpenUnsyncedFolders p \<notin> set (setup_proxy (proxy options))"
    using setup_proxy_kinds [of "OpenUnsyncedFolders p" "proxy options"] by auto
  then show ?thesis
    by (auto simp add: context_events_def load_exclude_list_def read_selectiveSyncList_def
        split: option.splits)
qed

text \<open>
  An event that every pass makes c times while it builds its context is made c times
  the number of passes begun; a pass begun ends at the engine or at the exclude lists.
\<close>

lemma sync_loop_count_per_pass:
  assumes "\<And>n j. count_list (fst (run_pass options remUrl folder (envs n) j)) e = c"
    and "\<not> outside_pass e"
  shows "count_list (fst (sync_loop options remUrl folder envs k j)) e
         = c * (count_list (fst (sync_loop options remUrl folder envs k j)) StartSync
                + count_list (fst (sync_loop options remUrl folder envs k j))
                    FatalCannotLoadExcludeList)"
proof (rule sync_loop_events_induct)
  fix n j
  show "count_list (fst (run_pass options remUrl folder (envs n) j)) e
         = c * (count_list (fst (run_pass options remUrl folder (envs n) j)) StartSync
                + count_list (fst (run_pass options remUrl folder (envs n) j))
                    FatalCannotLoadExcludeList)"
    by (simp add: assms(1) run_pass_count_StartSync run_pass_count_Fatal)
next
  fix n
  show "count_list [DebugRestartingSync n] e
        = c * (count_list [DebugRestartingSync n] StartSync
               + count_list [DebugRestartingSync n] FatalCannotLoadExcludeList)"
    using assms(2) by auto
  show "count_list [WarningRestartCountExceeded n] e
        = c * (count_list [WarningRestartCountExceeded n] StartSync
               + count_list [WarningRestartCountExceeded n] FatalCannotLoadExcludeList)"
    using assms(2) by auto
next
  fix xs ys :: "event list"
  assume "count_list xs e
          = c * (count_list xs StartSync + count_list xs FatalCannotLoadExcludeList)"
    and "count_list ys e
          = c * (count_list ys StartSync + count_list ys FatalCannotLoadExcludeList)"
  then show "count_list (xs @ ys) e
          = c * (count_list (xs @ ys) StartSync + count_list (xs @ ys) FatalCannotLoadExcludeList)"
    by (simp add: algebra_simps)
qed

lemma sync_loop_count_proxy:
  assumes "e = SetUseSystemConfiguration b \<or> e = SetApplicationProxy h n
           \<or> e = SetupQtProxyFromConfig"
  shows "count_list (fst (sync_loop options remUrl folder envs k j)) e
         = count_list (setup_proxy (proxy options)) e
           * (count_list (fst (sync_loop options remUrl folder envs k j)) StartSync
              + count_list (fst (sync_loop options remUrl folder envs k j))
                  FatalCannotLoadExcludeList)"
proof (rule sync_loop_count_per_pass)
  show "\<not> outside_pass e" using assms by auto
  fix n' j'
  have "count_list (fst (run_pass options remUrl folder (envs n') j')) e
        = count_list (context_events options remUrl (envs n')) e"
    using assms by (intro run_pass_count_context) auto
  then show "count_list (fst (run_pass options remUrl folder (envs n') j')) e
        = count_list (setup_proxy (proxy options)) e"
    using count_context_proxy [OF assms] by simp
qed

lemma sync_loop_count_exclude:
  assumes "\<And>n. (if excludeFileFromSystem (envs n) = p \<and> p \<noteq> [] then 1 else 0)
                + (if exclude options = p \<and> p \<noteq> [] then 1 else 0) = (c::nat)"
  shows "count_list (fst (sync_loop options remUrl folder envs k j)) (CsyncAddExcludeList p)
         = c * (count_list (fst (sync_loop options remUrl folder envs k j)) StartSync
                + count_list (fst (sync_loop options remUrl folder envs k j))
                    FatalCannotLoadExcludeList)"
proof (rule sync_loop_count_per_pass)
  show "\<not> outside_pass (CsyncAddExcludeList p)" by simp
  fix n' j'
  have "count_list (fst (run_pass options remUrl folder (envs n') j')) (CsyncAddExcludeList p)
        = count_list (context_events options remUrl (envs n')) (CsyncAddExcludeList p)"
    by (intro run_pass_count_context) auto
  then show "count_list (fst (run_pass options remUrl folder (envs n') j')) (CsyncAddExcludeList p)
        = c"
    using assms [of n'] by (simp only: count_context_exclude)
qed

lemma sync_loop_count_open:
  assumes "unsyncedfolders options \<noteq> []"
  shows "count_list (fst (sync_loop options remUrl folder envs k j))
           (OpenUnsyncedFolders (unsyncedfolders options))
         = 1 * (count_list (fst (sync_loop options remUrl folder envs k j)) StartSync
                + count_list (fst (sync_loop options remUrl folder envs k j))
                    FatalCannotLoadExcludeList)"
proof (rule sync_loop_count_per_pass)
  show "\<not> outside_pass (OpenUnsyncedFolders (unsyncedfolders options))" by simp
  fix n' j'
  have "count_list (fst (run_pass options remUrl folder (envs n') j'))
          (OpenUnsyncedFolders (unsyncedfolders options))
        = count_list (context_events options remUrl (envs n'))
            (OpenUnsyncedFolders (unsyncedfolders options))"
    by (intro run_pass_count_context) auto
  then show "count_list (fst (run_pass options remUrl folder (envs n') j'))
          (OpenUnsyncedFolders (unsyncedfolders options)) = 1"
    using assms by (simp add: count_context_open)
qed

text \<open>
  C4. In a run of \<^verbatim>\<open>main\<close> that gets past its start-up, the credentials object is made
  once, before the loop, and no pass makes another. Every pass, the first and each
  restart, builds its csync context from the same options: each pass begun (it ends at
  the engine or at the exclude lists) makes one \<^verbatim>\<open>csync_create\<close> with the same source
  directory and URL, sets the log level and the hidden-file policy once, makes the
  proxy calls of the override again (the ambient configuration when there is none),
  adds each configured exclude list again and opens the unsynced-folders file again.
  But a restart also constructs the journal object and the engine again, once for each
  pass that reaches the engine, and, when the unsynced-folders file gives the same
  non-empty list in every pass, calls \<^verbatim>\<open>selectiveSyncFixup\<close> with it again in each of
  these passes.
\<close>

theorem restart_rebuilds:
  assumes "parseOptions (file_exists menv) args initial_options = Inr parsed"
    and "account_created menv"
  shows "(\<exists>u p. hd (fst (main menv envs args j)) = NewHttpCredentialsText u p)
     \<and> (\<forall>u p. NewHttpCredentialsText u p \<notin> set (tl (fst (main menv envs args j))))
     \<and> count_list (fst (main menv envs args j))
          (CsyncCreate (source_dir parsed) (target_url (options_after_rewrite menv parsed)))
        = count_list (fst (main menv envs args j)) StartSync
          + count_list (fst (main menv envs args j)) FatalCannotLoadExcludeList
     \<and> count_list (fst (main menv envs args j))
          (CsyncSetLogLevel (if silent parsed then 1 else 11))
        = count_list (fst (main menv envs args j)) StartSync
          + count_list (fst (main menv envs args j)) FatalCannotLoadExcludeList
     \<and> count_list (fst (main menv envs args j)) (SetIgnoreHiddenFiles (ignoreHiddenFiles parsed))
        = count_list (fst (main menv envs args j)) StartSync
          + count_list (fst (main menv envs args j)) FatalCannotLoadExcludeList
     \<and> count_list (fst (main menv envs args j)) (NewSyncJournalDb (source_dir parsed))
        = count_list (fst (main menv envs args j)) StartSync
     \<and> (\<forall>l. (\<forall>n. fst (read_selectiveSyncList (unsyncedfolders parsed) (unsynced_file (envs n))) = l)
              \<and> l \<noteq> []
          \<longrightarrow> count_list (fst (main menv envs args j)) (SelectiveSyncFixup l)
              = count_list (fst (main menv envs args j)) StartSync)
     \<and> (\<forall>e \<in> set (setup_proxy (proxy parsed)).
           count_list (fst (main menv envs args j)) e
           = count_list (setup_proxy (proxy parsed)) e
             * (count_list (fst (main menv envs args j)) StartSync
                + count_list (fst (main menv envs args j)) FatalCannotLoadExcludeList))
     \<and> (proxy parsed = None \<longrightarrow>
           count_list (fst (main menv envs args j)) SetupQtProxyFromConfig
           = count_list (fst (main menv envs args j)) StartSync
             + count_list (fst (main menv envs args j)) FatalCannotLoadExcludeList)
     \<and> (\<forall>p. p \<noteq> [] \<and> (\<forall>n. excludeFileFromSystem (envs n) = p) \<and> exclude parsed \<noteq> p \<longrightarrow>
           count_list (fst (main menv envs args j)) (CsyncAddExcludeList p)
           = count_list (fst (main menv envs args j)) StartSync
             + count_list (fst (main menv envs args j)) FatalCannotLoadExcludeList)
     \<and> (exclude parsed \<noteq> [] \<and> (\<forall>n. excludeFileFromSystem (envs n) \<noteq> exclude parsed) \<longrightarrow>
           count_list (fst (main menv envs args j)) (CsyncAddExcludeList (exclude parsed))
           = count_list (fst (main menv envs args j)) StartSync
             + count_list (fst (main menv envs args j)) FatalCannotLoadExcludeList)
     \<and> (unsyncedfolders parsed \<noteq> [] \<longrightarrow>
           count_list (fst (main menv envs args j)) (OpenUnsyncedFolders (unsyncedfolders parsed))
           = count_list (fst (main menv envs args j)) StartSync
             + count_list (fst (main menv envs args j)) FatalCannotLoadExcludeList)
     \<and> count_list (fst (main menv envs args j))
          (NewSyncEngine (source_dir parsed) (target_url (options_after_rewrite menv parsed))
             (sync_folder menv (options_after_rewrite menv parsed)))
        = count_list (fst (main menv envs args j)) StartSync"
proof -
  let ?options = "options_after_rewrite menv parsed"
  let ?folder = "sync_folder menv ?options"
  let ?loop = "fst (sync_loop ?options (target_url ?options) ?folder envs 0 j)"
  let ?cred = "NewHttpCredentialsText (fst (resolved menv ?options)) (snd (resolved menv ?options))"
  let ?acc = "account_url menv ?options (resolved menv ?options)"
  have o: "source_dir ?options = source_dir parsed" "silent ?options = silent parsed"
    "ignoreHiddenFiles ?options = ignoreHiddenFiles parsed"
    "unsyncedfolders ?options = unsyncedfolders parsed" "proxy ?options = proxy parsed"
    "exclude ?options = exclude parsed"
    by (simp_all add: options_after_rewrite_def)
  have m: "fst (main menv envs args j) = ?cred # ?acc # ?loop"
    by (rule main_started(1) [OF assms])
  have out: "outside_pass ?cred" "outside_pass ?acc"
    by (simp_all add: account_url_def Let_def)
  have cnt: "count_list (fst (main menv envs args j)) e = count_list ?loop e"
    if "\<not> outside_pass e" for e
  proof -
    from that out have "?cred \<noteq> e" "?acc \<noteq> e" by metis+
    then show ?thesis unfolding m by simp
  qed
  have noc: "NewHttpCredentialsText u p \<noteq> ?acc" for u p
    by (simp add: account_url_def Let_def)
  have k1: "\<exists>u p. hd (fst (main menv envs args j)) = NewHttpCredentialsText u p"
    unfolding m by simp
  have k2: "\<forall>u p. NewHttpCredentialsText u p \<notin> set (tl (fst (main menv envs args j)))"
    unfolding m using noc by (simp add: sync_loop_no_credentials)
  have k3: "count_list (fst (main menv envs args j)) (CsyncCreate (source_dir parsed) (target_url ?options))
        = count_list (fst (main menv envs args j)) StartSync
          + count_list (fst (main menv envs args j)) FatalCannotLoadExcludeList"
    using sync_loop_count_contexts [of ?options "target_url ?options" ?folder envs 0 j]
    by (simp add: cnt o)
  have k4: "count_list (fst (main menv envs args j)) (CsyncSetLogLevel (if silent parsed then 1 else 11))
        = count_list (fst (main menv envs args j)) StartSync
          + count_list (fst (main menv envs args j)) FatalCannotLoadExcludeList"
    using sync_loop_count_log_level [of ?options "target_url ?options" ?folder envs 0 j]
    by (simp add: cnt o)
  have k5: "count_list (fst (main menv envs args j)) (SetIgnoreHiddenFiles (ignoreHiddenFiles parsed))
        = count_list (fst (main menv envs args j)) StartSync
          + count_list (fst (main menv envs args j)) FatalCannotLoadExcludeList"
    using sync_loop_count_hidden_files [of ?options "target_url ?options" ?folder envs 0 j]
    by (simp add: cnt o)
  have k6: "count_list (fst (main menv envs args j)) (NewSyncJournalDb (source_dir parsed))
        = count_list (fst (main menv envs args j)) StartSync"
    using sync_loop_count_journals [of ?options "target_url ?options" ?folder envs 0 j]
    by (simp add: cnt o)
  have k7: "\<forall>l. (\<forall>n. fst (read_selectiveSyncList (unsyncedfolders parsed) (unsynced_file (envs n))) = l)
              \<and> l \<noteq> []
          \<longrightarrow> count_list (fst (main menv envs args j)) (SelectiveSyncFixup l)
              = count_list (fst (main menv envs args j)) StartSync"
  proof (intro allI impI)
    fix l
    assume l: "(\<forall>n. fst (read_selectiveSyncList (unsyncedfolders parsed) (unsynced_file (envs n))) = l)
              \<and> l \<noteq> []"
    then have "count_list ?loop (SelectiveSyncFixup l) = count_list ?loop StartSync"
      using sync_loop_count_fixups [of ?options envs l "target_url ?options" ?folder 0 j]
      by (simp add: o)
    then show "count_list (fst (main menv envs args j)) (SelectiveSyncFixup l)
              = count_list (fst (main menv envs args j)) StartSync"
      by (simp add: cnt)
  qed
  have k8: "\<forall>e \<in> set (setup_proxy (proxy parsed)).
           count_list (fst (main menv envs args j)) e
           = count_list (setup_proxy (proxy parsed)) e
             * (count_list (fst (main menv envs args j)) StartSync
                + count_list (fst (main menv envs args j)) FatalCannotLoadExcludeList)"
  proof
    fix e
    assume "e \<in> set (setup_proxy (proxy parsed))"
    then have kind: "e = SetUseSystemConfiguration False \<or> (\<exists>h n. e = SetApplicationProxy h n)
         \<or> e = SetupQtProxyFromConfig"
      by (rule setup_proxy_kinds)
    then obtain h n where kind': "e = SetUseSystemConfiguration False \<or> e = SetApplicationProxy h n
         \<or> e = SetupQtProxyFromConfig"
      by blast
    then have ne: "\<not> outside_pass e" by auto
    from sync_loop_count_proxy [OF kind', of ?options "target_url ?options" ?folder envs 0 j]
    show "count_list (fst (main menv envs args j)) e
           = count_list (setup_proxy (proxy parsed)) e
             * (count_list (fst (main menv envs args j)) StartSync
                + count_list (fst (main menv envs args j)) FatalCannotLoadExcludeList)"
      by (simp add: cnt ne o)
  qed
  have k9: "proxy parsed = None \<longrightarrow>
           count_list (fst (main menv envs args j)) SetupQtProxyFromConfig
           = count_list (fst (main menv envs args j)) StartSync
             + count_list (fst (main menv envs args j)) FatalCannotLoadExcludeList"
  proof
    assume n: "proxy parsed = None"
    have "SetupQtProxyFromConfig = SetUseSystemConfiguration False
          \<or> SetupQtProxyFromConfig = SetApplicationProxy [] 0
          \<or> SetupQtProxyFromConfig = SetupQtProxyFromConfig"
      by simp
    from sync_loop_count_proxy [OF this, of ?options "target_url ?options" ?folder envs 0 j]
    show "count_list (fst (main menv envs args j)) SetupQtProxyFromConfig
           = count_list (fst (main menv envs args j)) StartSync
             + count_list (fst (main menv envs args j)) FatalCannotLoadExcludeList"
      by (simp add: cnt o n setup_proxy_def)
  qed
  have k10: "\<forall>p. p \<noteq> [] \<and> (\<forall>n. excludeFileFromSystem (envs n) = p) \<and> exclude parsed \<noteq> p \<longrightarrow>
           count_list (fst (main menv envs args j)) (CsyncAddExcludeList p)
           = count_list (fst (main menv envs args j)) StartSync
             + count_list (fst (main menv envs args j)) FatalCannotLoadExcludeList"
  proof (intro allI impI)
    fix p
    assume p: "p \<noteq> [] \<and> (\<forall>n. excludeFileFromSystem (envs n) = p) \<and> exclude parsed \<noteq> p"
    have "(if excludeFileFromSystem (envs n) = p \<and> p \<noteq> [] then 1 else 0)
          + (if exclude ?options = p \<and> p \<noteq> [] then 1 else 0) = (1::nat)" for n
      using p by (simp add: o)
    from sync_loop_count_exclude [of envs p ?options 1 "target_url ?options" ?folder 0 j, OF this]
    show "count_list (fst (main menv envs args j)) (CsyncAddExcludeList p)
           = count_list (fst (main menv envs args j)) StartSync
             + count_list (fst (main menv envs args j)) FatalCannotLoadExcludeList"
      by (simp add: cnt)
  qed
  have k11: "exclude parsed \<noteq> [] \<and> (\<forall>n. excludeFileFromSystem (envs n) \<noteq> exclude parsed) \<longrightarrow>
           count_list (fst (main menv envs args j)) (CsyncAddExcludeList (exclude parsed))
           = count_list (fst (main menv envs args j)) StartSync
             + count_list (fst (main menv envs args j)) FatalCannotLoadExcludeList"
  proof
    assume p: "exclude parsed \<noteq> [] \<and> (\<forall>n. excludeFileFromSystem (envs n) \<noteq> exclude parsed)"
    have "(if excludeFileFromSystem (envs n) = exclude parsed \<and> exclude parsed \<noteq> [] then 1 else 0)
          + (if exclude ?options = exclude parsed \<and> exclude parsed \<noteq> [] then 1 else 0)
          = (1::nat)" for n
      using p by (simp add: o)
    from sync_loop_count_exclude [of envs "exclude parsed" ?options 1 "target_url ?options"
        ?folder 0 j, OF this]
    show "count_list (fst (main menv envs args j)) (CsyncAddExcludeList (exclude parsed))
           = count_list (fst (main menv envs args j)) StartSync
             + count_list (fst (main menv envs args j)) FatalCannotLoadExcludeList"
      by (simp add: cnt)
  qed
  have k12: "unsyncedfolders parsed \<noteq> [] \<longrightarrow>
           count_list (fst (main menv envs args j)) (OpenUnsyncedFolders (unsyncedfolders parsed))
           = count_list (fst (main menv envs args j)) StartSync
             + count_list (fst (main menv envs args j)) FatalCannotLoadExcludeList"
  proof
    assume "unsyncedfolders parsed \<noteq> []"
    then have "unsyncedfolders ?options \<noteq> []" by (simp add: o)
    from sync_loop_count_open [OF this, of "target_url ?options" ?folder envs 0 j]
    show "count_list (fst (main menv envs args j)) (OpenUnsyncedFolders (unsyncedfolders parsed))
           = count_list (fst (main menv envs args j)) StartSync
             + count_list (fst (main menv envs args j)) FatalCannotLoadExcludeList"
      by (simp add: cnt o)
  qed
  have k13: "count_list (fst (main menv envs args j))
          (NewSyncEngine (source_dir parsed) (target_url ?options) ?folder)
        = count_list (fst (main menv envs args j)) StartSync"
    using sync_loop_count_engines [of ?options "target_url ?options" ?folder envs 0 j]
    by (simp add: cnt o)
  show ?thesis
    by (rule conjI [OF k1 conjI [OF k2 conjI [OF k3 conjI [OF k4 conjI [OF k5 conjI [OF k6
        conjI [OF k7 conjI [OF k8 conjI [OF k9 conjI [OF k10 conjI [OF k11
        conjI [OF k12 k13]]]]]]]]]]]])
qed

theorem restart_rebuilds_witness:
  "parseOptions (file_exists example_main_env) example_args initial_options = Inr example_parsed
   \<and> account_created example_main_env
   \<and> (\<forall>n. fst (read_selectiveSyncList (unsyncedfolders example_parsed)
                 (unsynced_file (example_envs_lists 1 n))) = [''a/''])
   \<and> proxy example_parsed = None
   \<and> SetupQtProxyFromConfig \<in> set (setup_proxy (proxy example_parsed))
   \<and> (\<forall>n. excludeFileFromSystem (example_envs_lists 1 n) = ''/etc/sync-exclude.lst'')
   \<and> exclude example_parsed = ''my.lst''
   \<and> unsyncedfolders example_parsed = ''list.txt''
   \<and> count_list (fst (main example_main_env (example_envs_lists 1) example_args example_journal)) StartSync = 2
   \<and> count_list (fst (main example_main_env (example_envs_lists 1) example_args example_journal)) FatalCannotLoadExcludeList = 0
   \<and> count_list (fst (main example_main_env (example_envs_lists 1) example_args example_journal)) (NewSyncJournalDb ''/tmp/sync/'') = 2
   \<and> count_list (fst (main example_main_env (example_envs_lists 1) example_args example_journal)) (SelectiveSyncFixup [''a/'']) = 2
   \<and> count_list (fst (main example_main_env (example_envs_lists 1) example_args example_journal)) SetupQtProxyFromConfig = 2
   \<and> count_list (fst (main example_main_env (example_envs_lists 1) example_args example_journal)) (CsyncAddExcludeList ''/etc/sync-exclude.lst'') = 2
   \<and> count_list (fst (main example_main_env (example_envs_lists 1) example_args example_journal)) (CsyncAddExcludeList ''my.lst'') = 2
   \<and> count_list (fst (main example_main_env (example_envs_lists 1) example_args example_journal)) (OpenUnsyncedFolders ''list.txt'') = 2
   \<and> count_list (fst (main example_main_env (example_envs_lists 1) example_args example_journal))
        (NewSyncEngine ''/tmp/sync/'' ''owncloud://example.com/remote.php/webdav/'' []) = 2"
proof -
  let ?trace = "fst (main example_main_env (example_envs_lists 1) example_args example_journal)"
  have a: "account_created example_main_env" by (simp add: example_main_env_def)
  have f: "source_dir example_parsed = ''/tmp/sync/''"
    "unsyncedfolders example_parsed = ''list.txt''" "exclude example_parsed = ''my.lst''"
    "proxy example_parsed = None"
    by (simp_all add: example_parsed_def initial_options_def)
  have l: "\<forall>n. fst (read_selectiveSyncList (unsyncedfolders example_parsed)
                 (unsynced_file (example_envs_lists 1 n))) = [''a/'']"
    by (simp add: f example_envs_lists_def example_list)
  have x: "\<forall>n. excludeFileFromSystem (example_envs_lists 1 n) = ''/etc/sync-exclude.lst''"
    by (simp add: example_envs_lists_def)
  have q: "SetupQtProxyFromConfig \<in> set (setup_proxy (proxy example_parsed))"
    by (simp add: f setup_proxy_def)
  have s: "count_list ?trace StartSync = 2" "count_list ?trace FatalCannotLoadExcludeList = 0"
    unfolding example_main by (simp_all add: example_pass_events_def)
  have o: "target_url (options_after_rewrite example_main_env example_parsed)
           = ''owncloud://example.com/remote.php/webdav/''"
    "sync_folder example_main_env (options_after_rewrite example_main_env example_parsed) = []"
    unfolding example_options example_folder by (simp_all add: example_url_def)
  note t = restart_rebuilds [OF example_parse a, of "example_envs_lists 1" example_journal,
      unfolded o]
  from t have "count_list ?trace (NewSyncJournalDb (source_dir example_parsed))
               = count_list ?trace StartSync"
    by (rule conjunct1 [OF conjunct2 [OF conjunct2 [OF conjunct2 [OF conjunct2 [OF conjunct2]]]]])
  then have c1: "count_list ?trace (NewSyncJournalDb ''/tmp/sync/'') = 2"
    unfolding f s .
  note t7 = t [THEN conjunct2, THEN conjunct2, THEN conjunct2, THEN conjunct2, THEN conjunct2,
      THEN conjunct2]
  from t7 have "(\<forall>n. fst (read_selectiveSyncList (unsyncedfolders example_parsed)
                   (unsynced_file (example_envs_lists 1 n))) = [''a/'']) \<and> [''a/''] \<noteq> []
      \<longrightarrow> count_list ?trace (SelectiveSyncFixup [''a/'']) = count_list ?trace StartSync"
    by (rule spec [OF conjunct1])
  with l have c2: "count_list ?trace (SelectiveSyncFixup [''a/'']) = 2"
    unfolding s by simp
  note t9 = t7 [THEN conjunct2, THEN conjunct2]
  from t9 have "proxy example_parsed = None \<longrightarrow>
           count_list ?trace SetupQtProxyFromConfig
           = count_list ?trace StartSync + count_list ?trace FatalCannotLoadExcludeList"
    by (rule conjunct1)
  then have c3: "count_list ?trace SetupQtProxyFromConfig = 2"
    unfolding s using f(4) by simp
  note t10 = t9 [THEN conjunct2]
  from t10 have "''/etc/sync-exclude.lst'' \<noteq> []
      \<and> (\<forall>n. excludeFileFromSystem (example_envs_lists 1 n) = ''/etc/sync-exclude.lst'')
      \<and> exclude example_parsed \<noteq> ''/etc/sync-exclude.lst'' \<longrightarrow>
           count_list ?trace (CsyncAddExcludeList ''/etc/sync-exclude.lst'')
           = count_list ?trace StartSync + count_list ?trace FatalCannotLoadExcludeList"
    by (rule spec [OF conjunct1])
  then have c4: "count_list ?trace (CsyncAddExcludeList ''/etc/sync-exclude.lst'') = 2"
    unfolding s using x f(3) by simp
  note t11 = t10 [THEN conjunct2]
  from t11 have "exclude example_parsed \<noteq> []
      \<and> (\<forall>n. excludeFileFromSystem (example_envs_lists 1 n) \<noteq> exclude example_parsed) \<longrightarrow>
           count_list ?trace (CsyncAddExcludeList (exclude example_parsed))
           = count_list ?trace StartSync + count_list ?trace FatalCannotLoadExcludeList"
    by (rule conjunct1)
  then have c5: "count_list ?trace (CsyncAddExcludeList ''my.lst'') = 2"
    unfolding s f using x by simp
  note t12 = t11 [THEN conjunct2]
  from t12 have "unsyncedfolders example_parsed \<noteq> [] \<longrightarrow>
           count_list ?trace (OpenUnsyncedFolders (unsyncedfolders example_parsed))
           = count_list ?trace StartSync + count_list ?trace FatalCannotLoadExcludeList"
    by (rule conjunct1)
  then have c6: "count_list ?trace (OpenUnsyncedFolders ''list.txt'') = 2"
    unfolding s f by simp
  from t12 have "count_list ?trace
        (NewSyncEngine (source_dir example_parsed) ''owncloud://example.com/remote.php/webdav/'' [])
        = count_list ?trace StartSync"
    by (rule conjunct2)
  then have c7: "count_list ?trace
        (NewSyncEngine ''/tmp/sync/'' ''owncloud://example.com/remote.php/webdav/'' []) = 2"
    unfolding f s .
  show ?thesis
    by (rule conjI [OF example_parse conjI [OF a conjI [OF l conjI [OF f(4) conjI [OF q
        conjI [OF x conjI [OF f(3) conjI [OF f(2) conjI [OF s(1) conjI [OF s(2) conjI [OF c1
        conjI [OF c2 conjI [OF c3 conjI [OF c4 conjI [OF c5 conjI [OF c6 c7]]]]]]]]]]]]]]]])
qed

theorem restart_redoes_counterexample:
  "count_list (fst (main example_main_env (example_envs_lists 1) example_args example_journal)) (DebugRestartingSync 1) = 1
   \<and> count_list (fst (main example_main_env (example_envs_lists 1) example_args example_journal)) (NewSyncJournalDb ''/tmp/sync/'') = 2
   \<and> count_list (fst (main example_main_env (example_envs_lists 1) example_args example_journal)) (SelectiveSyncFixup [''a/'']) = 2
   \<and> snd (snd (main example_main_env (example_envs_lists 1) example_args example_journal))
       = \<lparr>db_exists = True, db_openable = True, blacklist = [''a/''], avoid_read = {''a/''},
          avoid_calls = 1\<rparr>"
  unfolding example_main by (simp add: example_pass_events_def)

lemma parse_args_default_restartTimes:
  "parse_args as options = Inr options' \<Longrightarrow> ''--max-sync-retries'' \<notin> set as \<Longrightarrow>
   restartTimes options' = restartTimes options"
proof (induction as arbitrary: options rule: length_induct)
  case (1 as)
  show ?case
  proof (cases as)
    case Nil
    with "1.prems" show ?thesis by simp
  next
    case (Cons option rest)
    from "1.prems"(2) Cons have no: "option \<noteq> ''--max-sync-retries''"
      and nr: "''--max-sync-retries'' \<notin> set rest"
      by auto
    have R: "restartTimes options' = restartTimes options"
      if "parse_args rest opts = Inr options'" and "restartTimes opts = restartTimes options"
      for opts
      using "1.IH" [rule_format, of rest opts] Cons nr that by simp
    have R': "restartTimes options' = restartTimes options"
      if "parse_args rest' opts = Inr options'" and "rest = v # rest'"
        and "restartTimes opts = restartTimes options" for opts v rest'
      using "1.IH" [rule_format, of rest' opts] Cons nr that by simp
    note p = "1.prems"(1) [unfolded Cons parse_args.simps]
    show ?thesis
      apply (insert p no)
      apply (simp del: parse_args.simps split: if_split_asm list.split_asm;
          (erule (1) R' | erule R); simp)
      done
  qed
qed

lemma parseOptions_default_restartTimes:
  assumes "parseOptions fe args initial_options = Inr parsed"
    and "''--max-sync-retries'' \<notin> set args"
  shows "restartTimes parsed = 3"
proof -
  let ?as = "tl (butlast (butlast args))"
  have "x \<in> set args" if "x \<in> set ?as" for x
  proof -
    from that have "butlast (butlast args) \<noteq> []" by auto
    with that have "x \<in> set (butlast (butlast args))" by (rule_tac list.set_sel(2))
    then show ?thesis by (auto dest: in_set_butlastD)
  qed
  then have n: "''--max-sync-retries'' \<notin> set ?as" using assms(2) by blast
  let ?d = "if \<not> endsWith (last (butlast args)) ''/'' then last (butlast args) @ ''/''
            else last (butlast args)"
  let ?start = "initial_options\<lparr>target_url := last args, source_dir := ?d\<rparr>"
  from assms(1) have "(case parse_args ?as ?start of
                         Inl e \<Rightarrow> Inl e
                       | Inr options' \<Rightarrow>
                           if target_url options' = [] \<or> source_dir options' = [] then Inl Help
                           else Inr options') = Inr parsed"
    unfolding parseOptions_def Let_def by (simp split: if_splits)
  then have "parse_args ?as ?start = Inr parsed"
    by (cases "parse_args ?as ?start") (simp_all split: if_splits)
  from parse_args_default_restartTimes [OF this n] show ?thesis
    by (simp add: initial_options_def)
qed


subsection \<open>The retry bound of a whole run\<close>

lemma example_parse_plain:
  "parseOptions (file_exists example_main_env)
     [''owncloudcmd'', ''/tmp/sync'', ''http://example.com''] initial_options
   = Inr (initial_options\<lparr>source_dir := ''/tmp/sync/'', target_url := ''http://example.com''\<rparr>)"
  by (simp add: parseOptions_def example_main_env_def endsWith_def Let_def)

text \<open>
  C6. With \<^verbatim>\<open>restartTimes\<close> 3, the default, an engine that reports "another sync needed"
  after every pass, and in every pass an exclude list that is not configured or loads
  (so that no pass is fatal), \<^verbatim>\<open>main\<close> starts the engine exactly 4 times, its last event
  is the warning, logged once with the restart count 3, and it returns 0.
\<close>

theorem retry_bound:
  assumes "parseOptions (file_exists menv) args initial_options = Inr parsed"
    and "account_created menv"
    and "restartTimes parsed = 3"
    and "\<And>n j. snd (engine (envs n) j)"
    and "\<And>n. excludeFileFromSystem (envs n) = [] \<or> exclude parsed = []
              \<or> add_exclude_list (envs n) (excludeFileFromSystem (envs n)) = 0
              \<or> add_exclude_list (envs n) (exclude parsed) = 0"
  shows "count_list (fst (main menv envs args j)) StartSync = 4
         \<and> last (fst (main menv envs args j)) = WarningRestartCountExceeded 3
         \<and> count_list (fst (main menv envs args j)) (WarningRestartCountExceeded 3) = 1
         \<and> fst (snd (main menv envs args j)) = Returned 0"
proof -
  let ?options = "options_after_rewrite menv parsed"
  let ?folder = "sync_folder menv ?options"
  let ?loop = "sync_loop ?options (target_url ?options) ?folder envs 0 j"
  let ?cred = "NewHttpCredentialsText (fst (resolved menv ?options)) (snd (resolved menv ?options))"
  let ?acc = "account_url menv ?options (resolved menv ?options)"
  have o: "restartTimes ?options = 3" "exclude ?options = exclude parsed"
    using assms(3) by (simp_all add: options_after_rewrite_def)
  have nf: "snd (run_pass ?options (target_url ?options) ?folder (envs n) j) \<noteq> None" for n j
    using assms(5) [of n] by (auto simp add: run_pass_fatal_iff o)
  have "(0::int) \<le> restartTimes ?options" by (simp add: o)
  from sync_loop_always_another [of envs ?options "target_url ?options" ?folder 0 j,
      OF assms(4) nf this]
  have l: "count_list (fst ?loop) StartSync = 4" "fst ?loop \<noteq> []"
    "last (fst ?loop) = WarningRestartCountExceeded 3"
    "count_list (fst ?loop) (WarningRestartCountExceeded 3) = 1"
    "fst (snd ?loop) = Returned 0"
    by (simp_all add: o)
  have m: "fst (main menv envs args j) = ?cred # ?acc # fst ?loop"
    by (rule main_started(1) [OF assms(1,2)])
  have acc: "?acc \<noteq> StartSync" "?acc \<noteq> WarningRestartCountExceeded 3"
    by (simp_all add: account_url_def Let_def)
  have e: "snd (main menv envs args j) = snd ?loop"
    by (rule main_started(2) [OF assms(1,2)])
  show ?thesis
    unfolding m e using l acc by simp
qed

theorem retry_bound_witness:
  "parseOptions (file_exists example_main_env)
     [''owncloudcmd'', ''/tmp/sync'', ''http://example.com''] initial_options
   = Inr (initial_options\<lparr>source_dir := ''/tmp/sync/'', target_url := ''http://example.com''\<rparr>)
   \<and> account_created example_main_env
   \<and> restartTimes (initial_options\<lparr>source_dir := ''/tmp/sync/'',
                       target_url := ''http://example.com''\<rparr>) = 3
   \<and> (\<forall>n j. snd (engine (example_envs (Suc n) n) j))
   \<and> (\<forall>n. excludeFileFromSystem (example_envs (Suc n) n) = [])
   \<and> count_list (fst (main example_main_env (\<lambda>n. example_envs (Suc n) n)
                         [''owncloudcmd'', ''/tmp/sync'', ''http://example.com''] example_journal))
        StartSync = 4
   \<and> last (fst (main example_main_env (\<lambda>n. example_envs (Suc n) n)
                   [''owncloudcmd'', ''/tmp/sync'', ''http://example.com''] example_journal))
       = WarningRestartCountExceeded 3
   \<and> fst (snd (main example_main_env (\<lambda>n. example_envs (Suc n) n)
                  [''owncloudcmd'', ''/tmp/sync'', ''http://example.com''] example_journal))
       = Returned 0"
proof -
  let ?parsed = "initial_options\<lparr>source_dir := ''/tmp/sync/'', target_url := ''http://example.com''\<rparr>"
  let ?envs = "\<lambda>n. example_envs (Suc n) n"
  have a: "account_created example_main_env" by (simp add: example_main_env_def)
  have r: "restartTimes ?parsed = 3" by (simp add: initial_options_def)
  have b: "snd (engine (?envs n) j)" for n j by (simp add: example_envs_def)
  have c: "excludeFileFromSystem (?envs n) = []" for n by (simp add: example_envs_def)
  have c': "excludeFileFromSystem (?envs n) = [] \<or> exclude ?parsed = []
              \<or> add_exclude_list (?envs n) (excludeFileFromSystem (?envs n)) = 0
              \<or> add_exclude_list (?envs n) (exclude ?parsed) = 0" for n
    using c [of n] by blast
  from retry_bound [of example_main_env "[''owncloudcmd'', ''/tmp/sync'', ''http://example.com'']"
      ?parsed ?envs example_journal, OF example_parse_plain a r b c']
    example_parse_plain a r b c
  show ?thesis by simp
qed

end
